theory Spec2Isabelle
  imports Complex_Main
begin

section \<open>Exceptions\<close>

text \<open>
  The Python exceptions the modelled functions raise or let through. A function that can
  raise returns \<open>py_error + 'a\<close>, with \<open>Inl\<close> for the exception.
\<close>

datatype py_error =
    TypeError
  | ValueError
  | AttributeError
  | AssertionError
  | ZeroDivisionError
  | OptunaError
  | SolverError string

section \<open>Dataset concatenation (\<open>dataset/utils.py\<close>)\<close>

text \<open>
  \<open>type(x)\<close> of a dataset is its exact class. The two classes the dispatch names are
  constructors of their own; every other dataset class is \<open>OtherDataset\<close> with its name.
  A dataset is its class together with its content.
\<close>

datatype klass = NumpyDataset | CSRSparseDataset | OtherDataset string

type_synonym 'a dataset = "klass \<times> 'a"

definition type_of :: "'a dataset \<Rightarrow> klass" where
  "type_of d = fst d"

text \<open>
  \<open>get_common_concat\<close>: \<open>dataset_types\<close> is a Python set, here the list of classes without
  duplicates. The function returns \<open>klass.concat\<close>; the model returns the class whose
  \<open>concat\<close> that is.
\<close>

definition get_common_concat :: "'a dataset list \<Rightarrow> py_error + klass" where
  "get_common_concat datasets =
     (let dataset_types = remdups (map type_of datasets)
      in if length dataset_types = 1 then Inr (hd dataset_types)
         else if set dataset_types = {NumpyDataset, CSRSparseDataset} then Inr CSRSparseDataset
         else Inl TypeError)"

text \<open>
  \<open>concatenate\<close>: the concatenation itself is the class's own method, the parameter
  \<open>concat_of\<close> here. It works on a state \<open>'s\<close> (memory allocated, arrays copied), so that a
  run that did no concatenation work is one that leaves the state as it was.
\<close>

definition concatenate ::
  "(klass \<Rightarrow> 'a dataset list \<Rightarrow> 's \<Rightarrow> (py_error + 'r) \<times> 's) \<Rightarrow> 'a dataset list \<Rightarrow> 's
     \<Rightarrow> (py_error + 'r) \<times> 's" where
  "concatenate concat_of datasets s =
     (case get_common_concat datasets of
        Inl e \<Rightarrow> (Inl e, s)
      | Inr conc \<Rightarrow> concat_of conc datasets s)"

section \<open>The regularization path (\<open>LinearL1CD\<close> in \<open>ml_algo/linear_sklearn.py\<close>)\<close>

subsection \<open>The solver object\<close>

text \<open>
  The three scikit-learn estimators \<open>_infer_params\<close> builds, as far as the search reads and
  writes them: the class, the \<open>penalty\<close> keyword, the hyperparameters \<open>l1_ratio\<close>, \<open>C\<close> and
  \<open>alpha\<close>, and the coefficients of the last fit, \<open>coef_\<close> in the source and \<open>coef\<close> here
  (\<open>None\<close> before any fit). All estimators are built with \<open>warm_start=True\<close>, so a fit
  starts from the coefficients the object already holds. The keywords \<open>tol\<close>, \<open>max_iter\<close>
  and \<open>solver\<close> go to the constructor unchanged and the search never reads them; they are
  left out. Floating-point numbers are rationals here, and \<open>-np.inf\<close> is \<open>None\<close> in a
  \<open>rat option\<close>.
\<close>

datatype estimator_class = LogisticRegression | Lasso | ElasticNet

record estimator =
  est_class :: estimator_class
  penalty :: string
  l1_ratio :: "rat option"
  C :: rat
  alpha :: rat
  coef :: "rat list option"

datatype param_name = P_l1_ratio | P_C | P_alpha

text \<open>
  \<open>set_params\<close> raises ValueError for a keyword the class does not have: \<open>C\<close> belongs to
  LogisticRegression only, \<open>alpha\<close> to Lasso and ElasticNet, and Lasso has no \<open>l1_ratio\<close>.
\<close>

fun has_param :: "estimator_class \<Rightarrow> param_name \<Rightarrow> bool" where
  "has_param LogisticRegression P_l1_ratio = True"
| "has_param LogisticRegression P_C = True"
| "has_param LogisticRegression P_alpha = False"
| "has_param Lasso P_l1_ratio = False"
| "has_param Lasso P_C = False"
| "has_param Lasso P_alpha = True"
| "has_param ElasticNet P_l1_ratio = True"
| "has_param ElasticNet P_C = False"
| "has_param ElasticNet P_alpha = True"

definition set_params :: "estimator \<Rightarrow> param_name \<Rightarrow> rat \<Rightarrow> py_error + estimator" where
  "set_params m k x =
     (if \<not> has_param (est_class m) k then Inl ValueError
      else Inr (case k of
                  P_l1_ratio \<Rightarrow> m\<lparr>l1_ratio := Some x\<rparr>
                | P_C \<Rightarrow> m\<lparr>C := x\<rparr>
                | P_alpha \<Rightarrow> m\<lparr>alpha := x\<rparr>))"

text \<open>The constructors, with scikit-learn's defaults for what \<open>_infer_params\<close> does not pass.\<close>

definition new_LogisticRegression :: "string \<Rightarrow> estimator" where
  "new_LogisticRegression pen =
     \<lparr>est_class = LogisticRegression, penalty = pen, l1_ratio = None, C = 1, alpha = 0,
      coef = None\<rparr>"

definition new_Lasso :: estimator where
  "new_Lasso =
     \<lparr>est_class = Lasso, penalty = [], l1_ratio = Some 1, C = 0, alpha = 1, coef = None\<rparr>"

definition new_ElasticNet :: estimator where
  "new_ElasticNet =
     \<lparr>est_class = ElasticNet, penalty = [], l1_ratio = Some (1 / 2), C = 0, alpha = 1,
      coef = None\<rparr>"

subsection \<open>\<open>_infer_params\<close>\<close>

text \<open>\<open>self.params\<close>, the entries \<open>_infer_params\<close> pops; \<open>l1_ratios\<close> is a tuple.\<close>

record l1cd_params =
  cs :: "rat list"
  early_stopping :: int
  l1_ratios :: "rat list"

definition infer_params ::
  "string \<Rightarrow> l1cd_params \<Rightarrow> py_error + (estimator \<times> rat list \<times> rat list \<times> int)" where
  "infer_params task_name params =
     (if task_name \<in> {''binary'', ''multiclass''} then
        (if l1_ratios params = [1]
         then Inr (new_LogisticRegression ''l1'', cs params, l1_ratios params,
                   early_stopping params)
         else Inr (new_LogisticRegression ''elasticnet'', cs params, l1_ratios params,
                   early_stopping params))
      else if task_name = ''reg'' then
        (if l1_ratios params = [1]
         then Inr (new_Lasso, cs params, l1_ratios params, early_stopping params)
         else Inr (new_ElasticNet, cs params, l1_ratios params, early_stopping params))
      else Inl AttributeError)"

subsection \<open>What the search is given\<close>

text \<open>
  The collaborators of \<open>fit_predict_single_fold\<close>, fixed during one call:
  \<^item> \<open>fit_fn m\<close> is \<open>model.fit(train.data, train_target, train_weight)\<close> on the estimator \<open>m\<close>
    (its hyperparameters and, as warm start, its current \<open>coef_\<close>): the new coefficients,
    flattened, or the exception the solver raises;
  \<^item> \<open>predict_fn m\<close> is \<open>self._predict_w_model_type(model, valid.data)\<close>;
  \<^item> \<open>metric_func pred\<close> is \<open>metric(valid_target, pred, valid_weight)\<close>;
  \<^item> \<open>time_limit_exceeded k\<close> is what \<open>self.timer.time_limit_exceeded()\<close> answers the
    \<open>k\<close>-th time it is asked (from 0), whatever the clock does;
  \<^item> \<open>bw_func\<close> is \<open>self.task.losses['sklearn'].bw_func\<close>.
\<close>

record 'p solver_env =
  fit_fn :: "estimator \<Rightarrow> py_error + rat list"
  predict_fn :: "estimator \<Rightarrow> 'p"
  metric_func :: "'p \<Rightarrow> rat"
  time_limit_exceeded :: "nat \<Rightarrow> bool"
  bw_func :: "'p option \<Rightarrow> 'p option"

text \<open>
  What a run does besides computing its result: the estimators \<open>fit\<close> was called on, in
  order; the \<open>l1_ratio\<close> of each \<open>warnings.warn\<close>; the number of timer queries.
\<close>

record trace =
  fit_calls :: "estimator list"
  warnings :: "rat list"
  timer_queries :: nat

definition trace0 :: trace where
  "trace0 = \<lparr>fit_calls = [], warnings = [], timer_queries = 0\<rparr>"

text \<open>The local variables of \<open>fit_predict_single_fold\<close>.\<close>

record 'p vars =
  model :: estimator
  best_score :: "rat option"
  best_pred :: "'p option"
  best_model :: "estimator option"
  c_best_score :: "rat option"
  c_best_pred :: "'p option"
  c_best_model :: "estimator option"
  es :: nat

text \<open>\<open>a >= b\<close> on scores, \<open>None\<close> being \<open>-np.inf\<close>.\<close>

definition score_ge :: "rat option \<Rightarrow> rat option \<Rightarrow> bool" where
  "score_ge a b =
     (case b of None \<Rightarrow> True
      | Some y \<Rightarrow> (case a of None \<Rightarrow> False | Some x \<Rightarrow> y \<le> x))"

text \<open>
  \<open>np.allclose(coef, 0)\<close> with numpy's defaults \<open>rtol=1e-05\<close>, \<open>atol=1e-08\<close>: every entry has
  \<open>|x - 0| <= atol + rtol * |0|\<close>. \<open>(coef != 0).all()\<close>: every entry is non-zero.
\<close>

definition allclose0 :: "rat list \<Rightarrow> bool" where
  "allclose0 w = list_all (\<lambda>x. \<bar>x\<bar> \<le> 1 / 10 ^ 8) w"

definition all_nonzero :: "rat list \<Rightarrow> bool" where
  "all_nonzero w = list_all (\<lambda>x. x \<noteq> 0) w"

subsection \<open>The inner loop, over the penalty strengths\<close>

datatype flow = Continue | Break

text \<open>\<open>try: model.set_params(C=c) except ValueError: model.set_params(alpha=c)\<close>\<close>

definition set_strength :: "estimator \<Rightarrow> rat \<Rightarrow> py_error + estimator" where
  "set_strength m c =
     (case set_params m P_C c of
        Inl e \<Rightarrow> (if e = ValueError then set_params m P_alpha c else Inl e)
      | Inr m' \<Rightarrow> Inr m')"

text \<open>One pass through the body of \<open>for n, c in enumerate(cs)\<close>.\<close>

definition cell_step ::
  "'p solver_env \<Rightarrow> int \<Rightarrow> rat \<Rightarrow> nat \<Rightarrow> nat \<Rightarrow> rat \<Rightarrow> 'p vars \<Rightarrow> trace
     \<Rightarrow> (py_error + flow \<times> 'p vars) \<times> trace" where
  "cell_step env early_stop l1_ratio_v len_cs n c v t =
     (case set_strength (model v) c of
        Inl e \<Rightarrow> (Inl e, t)
      | Inr m1 \<Rightarrow>
          let t1 = t\<lparr>fit_calls := fit_calls t @ [m1]\<rparr> in
          (case fit_fn env m1 of
             Inl e \<Rightarrow> (Inl e, t1)
           | Inr w \<Rightarrow>
               let m2 = m1\<lparr>coef := Some w\<rparr>;
                   v1 = v\<lparr>model := m2\<rparr>
               in if allclose0 w \<and> int n \<noteq> int len_cs - 1 then (Inr (Continue, v1), t1)
                  else
                    let t2 = (if allclose0 w
                              then t1\<lparr>warnings := warnings t1 @ [l1_ratio_v]\<rparr> else t1);
                        pred = predict_fn env m2;
                        score = metric_func env pred;
                        v2 = (if score_ge (Some score) (c_best_score v1)
                              then v1\<lparr>c_best_score := Some score, c_best_pred := Some pred,
                                      es := 0, c_best_model := Some m2\<rparr>
                              else v1\<lparr>es := es v1 + 1\<rparr>)
                    in if early_stop \<le> int (es v2) then (Inr (Break, v2), t2)
                       else
                         let t3 = t2\<lparr>timer_queries := timer_queries t2 + 1\<rparr>
                         in if time_limit_exceeded env (timer_queries t2)
                              then (Inr (Break, v2), t3)
                            else if all_nonzero w then (Inr (Break, v2), t3)
                            else (Inr (Continue, v2), t3)))"

fun inner_loop ::
  "'p solver_env \<Rightarrow> int \<Rightarrow> rat \<Rightarrow> nat \<Rightarrow> (nat \<times> rat) list \<Rightarrow> 'p vars \<Rightarrow> trace
     \<Rightarrow> (py_error + 'p vars) \<times> trace" where
  "inner_loop env early_stop l1_ratio_v len_cs [] v t = (Inr v, t)"
| "inner_loop env early_stop l1_ratio_v len_cs ((n, c) # rest) v t =
     (case cell_step env early_stop l1_ratio_v len_cs n c v t of
        (Inl e, t') \<Rightarrow> (Inl e, t')
      | (Inr (Break, v'), t') \<Rightarrow> (Inr v', t')
      | (Inr (Continue, v'), t') \<Rightarrow> inner_loop env early_stop l1_ratio_v len_cs rest v' t')"

subsection \<open>The outer loop, over the mixing ratios\<close>

text \<open>
  One pass through the body of \<open>for l1_ratio in sorted(l1_ratios, reverse=True)\<close>, in the
  order of the source: \<open>set_params(l1_ratio=...)\<close> on the current \<open>model\<close> (a ValueError is
  passed over), then \<open>model = deepcopy(_model)\<close>, then the inner loop, the update of the
  global best and the timer query. The flag returned says whether the loop breaks.
\<close>

definition outer_step ::
  "'p solver_env \<Rightarrow> estimator \<Rightarrow> rat list \<Rightarrow> int \<Rightarrow> rat \<Rightarrow> 'p vars \<Rightarrow> trace
     \<Rightarrow> (py_error + flow \<times> 'p vars) \<times> trace" where
  "outer_step env model0 cs_v early_stop l1_ratio_v v t =
     (let v1 = (case set_params (model v) P_l1_ratio l1_ratio_v of
                  Inl e \<Rightarrow> v
                | Inr m \<Rightarrow> v\<lparr>model := m\<rparr>);
          v2 = v1\<lparr>model := model0\<rparr>;
          v3 = v2\<lparr>c_best_score := None, c_best_pred := None, c_best_model := None, es := 0\<rparr>
      in case inner_loop env early_stop l1_ratio_v (length cs_v) (enumerate 0 cs_v) v3 t of
           (Inl e, t') \<Rightarrow> (Inl e, t')
         | (Inr v4, t') \<Rightarrow>
             let v5 = (if score_ge (c_best_score v4) (best_score v4)
                       then v4\<lparr>best_score := c_best_score v4, best_pred := c_best_pred v4,
                               best_model := c_best_model v4\<rparr>
                       else v4);
                 t'' = t'\<lparr>timer_queries := timer_queries t' + 1\<rparr>
             in if time_limit_exceeded env (timer_queries t') then (Inr (Break, v5), t'')
                else (Inr (Continue, v5), t''))"

fun outer_loop ::
  "'p solver_env \<Rightarrow> estimator \<Rightarrow> rat list \<Rightarrow> int \<Rightarrow> rat list \<Rightarrow> 'p vars \<Rightarrow> trace
     \<Rightarrow> (py_error + 'p vars) \<times> trace" where
  "outer_loop env model0 cs_v early_stop [] v t = (Inr v, t)"
| "outer_loop env model0 cs_v early_stop (r # rest) v t =
     (case outer_step env model0 cs_v early_stop r v t of
        (Inl e, t') \<Rightarrow> (Inl e, t')
      | (Inr (Break, v'), t') \<Rightarrow> (Inr v', t')
      | (Inr (Continue, v'), t') \<Rightarrow> outer_loop env model0 cs_v early_stop rest v' t')"

subsection \<open>\<open>fit_predict_single_fold\<close>\<close>

definition init_vars :: "estimator \<Rightarrow> 'p vars" where
  "init_vars model0 =
     \<lparr>model = model0, best_score = None, best_pred = None, best_model = None,
      c_best_score = None, c_best_pred = None, c_best_model = None, es = 0\<rparr>"

text \<open>
  The result is the pair \<open>(best_model, val_pred)\<close>, with \<open>None\<close> for Python's \<open>None\<close>, or the
  exception that left the function; the trace comes with either.
\<close>

definition fit_predict_single_fold ::
  "'p solver_env \<Rightarrow> string \<Rightarrow> l1cd_params
     \<Rightarrow> (py_error + estimator option \<times> 'p option) \<times> trace" where
  "fit_predict_single_fold env task_name params =
     (case infer_params task_name params of
        Inl e \<Rightarrow> (Inl e, trace0)
      | Inr (model0, cs_v, l1_ratios_v, early_stop) \<Rightarrow>
          (case outer_loop env model0 cs_v early_stop (rev (sort l1_ratios_v))
                  (init_vars model0) trace0 of
             (Inl e, t) \<Rightarrow> (Inl e, t)
           | (Inr v, t) \<Rightarrow> (Inr (best_model v, bw_func env (best_pred v)), t)))"

section \<open>The tuner (\<open>OptunaTuner\<close> in \<open>ml_algo/tuning/optuna.py\<close>)\<close>

subsection \<open>Objects\<close>

text \<open>
  The algorithm being tuned is an object that is copied and written to, so objects live in
  a store, a list indexed by reference. Of an \<open>MLAlgo\<close> the tuner reads and writes
  \<open>is_fitted\<close>, \<open>params\<close> and \<open>mean_trial_time\<close>. \<open>deepcopy\<close> allocates a new object with the
  same content and returns its reference.
\<close>

record 'prm ml_algo =
  is_fitted :: bool
  params :: 'prm
  mean_trial_time :: "rat option"

type_synonym 'prm store = "'prm ml_algo list"

definition deepcopy :: "'prm store \<Rightarrow> nat \<Rightarrow> 'prm store \<times> nat" where
  "deepcopy h a = (h @ [h ! a], length h)"

text \<open>
  A completed trial as the study keeps it: the sampled parameters, the objective's value
  and the trial's duration in seconds.
\<close>

record 'prm frozen_trial =
  trial_params :: 'prm
  trial_value :: rat
  trial_duration :: rat

text \<open>The fields \<open>__init__\<close> sets, with \<open>self.study\<close> (its trials) and \<open>self._best_params\<close>.\<close>

record 'prm tuner =
  timeout :: rat
  n_trials :: int
  estimated_n_trials :: rat
  direction :: string
  fit_on_holdout :: bool
  random_state :: int
  study :: "'prm frozen_trial list"
  best_params :: "'prm option"

definition new_OptunaTuner :: "rat \<Rightarrow> int \<Rightarrow> string \<Rightarrow> bool \<Rightarrow> int \<Rightarrow> 'prm tuner" where
  "new_OptunaTuner timeout_v n_trials_v direction_v fit_on_holdout_v random_state_v =
     \<lparr>timeout = timeout_v, n_trials = n_trials_v, estimated_n_trials = of_int n_trials_v,
      direction = direction_v, fit_on_holdout = fit_on_holdout_v,
      random_state = random_state_v, study = [], best_params = None\<rparr>"

definition upd_timeout :: "'prm tuner \<Rightarrow> rat \<Rightarrow> 'prm tuner" where
  "upd_timeout tn timeout_v = tn\<lparr>timeout := min (timeout tn) timeout_v\<rparr>"

subsection \<open>What the tuner is given\<close>

text \<open>
  The collaborators of \<open>fit\<close>, none of them in this file of the repository:
  \<^item> \<open>estimate_tuner_time n\<close> is \<open>ml_algo.timer.estimate_tuner_time(n)\<close>;
  \<^item> \<open>iterator_len\<close>, \<open>is_HoldoutIterator\<close> (\<open>type(it) == HoldoutIterator\<close>) and
    \<open>convert_to_holdout_iterator\<close> are the iterator's;
  \<^item> \<open>trial_params_values est it k\<close> is what \<open>_ml_algo.trial_params_values\<close> samples in trial
    number \<open>k\<close>, given the \<open>estimated_n_trials\<close> and the iterator the objective was built
    with, or the exception it raises;
  \<^item> \<open>fit_predict it algo\<close> is \<open>algo.fit_predict(it)\<close>: the object after the call and the
    predictions, or the exception raised;
  \<^item> \<open>score\<close> is \<open>_ml_algo.score\<close>;
  \<^item> \<open>duration_of k\<close> is the duration of trial number \<open>k\<close>. The clock is the sum of the
    durations of the trials run: a mocked clock on which only trials take time.
\<close>

record ('prm, 'it, 'ds) tuner_env =
  estimate_tuner_time :: "nat \<Rightarrow> rat"
  iterator_len :: "'it \<Rightarrow> nat"
  is_HoldoutIterator :: "'it \<Rightarrow> bool"
  convert_to_holdout_iterator :: "'it \<Rightarrow> 'it"
  trial_params_values :: "rat \<Rightarrow> 'it \<Rightarrow> nat \<Rightarrow> py_error + 'prm"
  fit_predict :: "'it \<Rightarrow> 'prm ml_algo \<Rightarrow> py_error + 'prm ml_algo \<times> 'ds"
  score :: "'ds \<Rightarrow> rat"
  duration_of :: "nat \<Rightarrow> rat"

subsection \<open>The objective (\<open>OptunaTunableMixin.get_objective\<close>)\<close>

text \<open>
  \<open>objective(trial)\<close> for trial number \<open>k\<close>, \<open>self\<close> being the object at \<open>a\<close>: a deep copy gets
  the sampled parameters, is fitted and scored. \<open>est\<close> and \<open>it\<close> are the arguments
  \<open>get_objective\<close> was called with, fixed in the closure.
\<close>

definition objective ::
  "('prm, 'it, 'ds) tuner_env \<Rightarrow> rat \<Rightarrow> 'it \<Rightarrow> nat \<Rightarrow> nat \<Rightarrow> 'prm store
     \<Rightarrow> (py_error + 'prm \<times> rat) \<times> 'prm store" where
  "objective env est it a k h =
     (let (h1, a1) = deepcopy h a
      in case trial_params_values env est it k of
           Inl e \<Rightarrow> (Inl e, h1)
         | Inr prm \<Rightarrow>
             let h2 = h1[a1 := (h1 ! a1)\<lparr>params := prm\<rparr>]
             in (case fit_predict env it (h2 ! a1) of
                   Inl e \<Rightarrow> (Inl e, h2)
                 | Inr (algo', output_dataset) \<Rightarrow>
                     (Inr (prm, score env output_dataset), h2[a1 := algo'])))"

subsection \<open>The callback \<open>update_trial_time\<close>\<close>

text \<open>\<open>study.trials_dataframe()['duration'].mean().total_seconds()\<close>\<close>

definition mean_duration :: "'prm frozen_trial list \<Rightarrow> rat" where
  "mean_duration trials = sum_list (map trial_duration trials) / of_nat (length trials)"

text \<open>
  The callback writes \<open>mean_trial_time\<close> to the tuner's copy of the algorithm (at \<open>a\<close>) and
  \<open>estimated_n_trials\<close> to the tuner. \<open>self.timeout // mean\<close> is a floor division of floats,
  which raises ZeroDivisionError for a zero divisor. The first component of the result is
  the exception raised, if any.
\<close>

definition update_trial_time ::
  "'prm tuner \<Rightarrow> nat \<Rightarrow> 'prm store \<Rightarrow> py_error option \<times> 'prm tuner \<times> 'prm store" where
  "update_trial_time tn a h =
     (let m = mean_duration (study tn);
          h1 = h[a := (h ! a)\<lparr>mean_trial_time := Some m\<rparr>]
      in if m = 0 then (Some ZeroDivisionError, tn, h1)
         else (None,
               tn\<lparr>estimated_n_trials :=
                     min (of_int (n_trials tn)) (of_int \<lfloor>timeout tn / m\<rfloor>)\<rparr>,
               h1))"

subsection \<open>\<open>study.optimize\<close>\<close>

text \<open>
  \<open>study.optimize(func, n_trials, timeout, callbacks)\<close> is Optuna's, a library outside the
  repository. It is modelled by its documented contract, as its sequential loop runs it:
  before each trial it stops when \<open>n_trials\<close> trials have been started or when \<open>timeout\<close>
  seconds have elapsed since the start; it runs the objective; an exception of the
  objective marks the trial failed and leaves \<open>optimize\<close>; after a completed trial every
  callback is called with the study. \<open>n_trials_arg\<close> and \<open>timeout_arg\<close> are the values
  passed in the call, \<open>i_trial\<close> counts the trials started. Optuna stores the failed trial
  too; the tuner reads nothing of the study once an exception has left \<open>optimize\<close>, and the
  study of the model holds the completed trials only.
\<close>

definition elapsed :: "'prm frozen_trial list \<Rightarrow> rat" where
  "elapsed trials = sum_list (map trial_duration trials)"

function optimize ::
  "('prm, 'it, 'ds) tuner_env \<Rightarrow> rat \<Rightarrow> 'it \<Rightarrow> nat \<Rightarrow> int \<Rightarrow> rat \<Rightarrow> nat \<Rightarrow> 'prm tuner
     \<Rightarrow> 'prm store \<Rightarrow> py_error option \<times> 'prm tuner \<times> 'prm store" where
  "optimize env est it a n_trials_arg timeout_arg i_trial tn h =
     (if n_trials_arg \<le> int i_trial then (None, tn, h)
      else if timeout_arg \<le> elapsed (study tn) then (None, tn, h)
      else
        (case objective env est it a i_trial h of
           (Inl e, h') \<Rightarrow> (Some e, tn, h')
         | (Inr (prm, value), h') \<Rightarrow>
             (case update_trial_time
                     (tn\<lparr>study := study tn @
                          [\<lparr>trial_params = prm, trial_value = value,
                            trial_duration = duration_of env i_trial\<rparr>]\<rparr>) a h' of
                (Some e, tn', h'') \<Rightarrow> (Some e, tn', h'')
              | (None, tn', h'') \<Rightarrow>
                  optimize env est it a n_trials_arg timeout_arg (Suc i_trial) tn' h'')))"
  by pat_completeness auto
termination
  by (relation "measure (\<lambda>(env, est, it, a, n, t, i, tn, h). nat (n - int i))") auto

subsection \<open>\<open>study.best_params\<close>\<close>

text \<open>
  Optuna's as well, modelled by its contract: the parameters of the best completed trial,
  the best being replaced only by a strictly better value (so the earliest of equal values
  stays); ValueError when no trial is completed.
\<close>

definition better :: "string \<Rightarrow> rat \<Rightarrow> rat \<Rightarrow> bool" where
  "better direction_v new_value best_value =
     (if direction_v = ''maximize'' then best_value < new_value else new_value < best_value)"

fun best_trial :: "string \<Rightarrow> 'prm frozen_trial option \<Rightarrow> 'prm frozen_trial list
                     \<Rightarrow> 'prm frozen_trial option" where
  "best_trial d best [] = best"
| "best_trial d best (t # ts) =
     (case best of
        None \<Rightarrow> best_trial d (Some t) ts
      | Some b \<Rightarrow>
          if better d (trial_value t) (trial_value b) then best_trial d (Some t) ts
          else best_trial d (Some b) ts)"

definition study_best_params :: "string \<Rightarrow> 'prm frozen_trial list \<Rightarrow> py_error + 'prm" where
  "study_best_params d trials =
     (case best_trial d None trials of
        None \<Rightarrow> Inl ValueError
      | Some t \<Rightarrow> Inr (trial_params t))"

subsection \<open>\<open>OptunaTuner.fit\<close>\<close>

text \<open>
  The body of the \<open>try\<close> block. \<open>optuna.create_study\<close> raises ValueError for a direction
  other than \<open>minimize\<close> and \<open>maximize\<close>. The result is \<open>None\<close> for the pair \<open>(None, None)\<close>,
  and the reference of the tuned algorithm with its predictions otherwise.
\<close>

definition fit_try ::
  "('prm, 'it, 'ds) tuner_env \<Rightarrow> 'prm tuner \<Rightarrow> nat \<Rightarrow> 'it \<Rightarrow> bool \<Rightarrow> 'prm store
     \<Rightarrow> (py_error + (nat \<times> 'ds) option) \<times> 'prm tuner \<times> 'prm store" where
  "fit_try env tn a it flg_new_iterator h =
     (if direction tn \<notin> {''minimize'', ''maximize''} then (Inl ValueError, tn, h)
      else
        (case optimize env (estimated_n_trials tn) it a (n_trials tn) (timeout tn) 0
                (tn\<lparr>study := []\<rparr>) h of
           (Some e, tn1, h1) \<Rightarrow> (Inl e, tn1, h1)
         | (None, tn1, h1) \<Rightarrow>
             (case study_best_params (direction tn1) (study tn1) of
                Inl e \<Rightarrow> (Inl e, tn1, h1)
              | Inr bp \<Rightarrow>
                  let tn2 = tn1\<lparr>best_params := Some bp\<rparr>;
                      h2 = h1[a := (h1 ! a)\<lparr>params := bp\<rparr>]
                  in (case fit_predict env it (h2 ! a) of
                        Inl e \<Rightarrow> (Inl e, tn2, h2)
                      | Inr (algo', preds_ds) \<Rightarrow>
                          if flg_new_iterator then (Inr None, tn2, h2[a := algo'])
                          else (Inr (Some (a, preds_ds)), tn2, h2[a := algo'])))))"

text \<open>
  \<open>fit(ml_algo, train_valid_iterator)\<close>, \<open>ml_algo\<close> being the reference \<open>a\<close>:
  the assertion, the update of the timeout, the deep copy, the conversion of the iterator,
  and the \<open>try\<close> block with \<open>except optuna.exceptions.OptunaError: return None, None\<close>.
\<close>

definition fit ::
  "('prm, 'it, 'ds) tuner_env \<Rightarrow> 'prm tuner \<Rightarrow> nat \<Rightarrow> 'it \<Rightarrow> 'prm store
     \<Rightarrow> (py_error + (nat \<times> 'ds) option) \<times> 'prm tuner \<times> 'prm store" where
  "fit env tn a it h =
     (if is_fitted (h ! a) then (Inl AssertionError, tn, h)
      else
        let estimated_tuning_time = max (estimate_tuner_time env (iterator_len env it)) 1;
            tn1 = upd_timeout tn estimated_tuning_time;
            (h1, a1) = deepcopy h a;
            flg_new_iterator = (fit_on_holdout tn1 \<and> \<not> is_HoldoutIterator env it);
            it1 = (if flg_new_iterator then convert_to_holdout_iterator env it else it)
        in (case fit_try env tn1 a1 it1 flg_new_iterator h1 of
              (Inl e, tn2, h2) \<Rightarrow>
                if e = OptunaError then (Inr None, tn2, h2) else (Inl e, tn2, h2)
            | (Inr r, tn2, h2) \<Rightarrow> (Inr r, tn2, h2)))"

subsection \<open>The budget estimate as the specification words it\<close>

text \<open>
  The specification's \<open>remaining_time\<close> of a TimeBudget, \<open>max(0, deadline - now)\<close>, on the
  mocked clock, and its \<open>floor(remaining_time / mean_duration)\<close>. These two follow the
  specification's words, to be compared with what \<open>update_trial_time\<close> computes.
\<close>

definition spec_remaining_time :: "rat \<Rightarrow> 'prm frozen_trial list \<Rightarrow> rat" where
  "spec_remaining_time timeout_v trials = max 0 (timeout_v - elapsed trials)"

definition spec_estimated_affordable_trials :: "rat \<Rightarrow> 'prm frozen_trial list \<Rightarrow> rat" where
  "spec_estimated_affordable_trials timeout_v trials =
     of_int \<lfloor>spec_remaining_time timeout_v trials / mean_duration trials\<rfloor>"

subsection \<open>Reading a trace\<close>

text \<open>
  \<open>calls_succeeded\<close>: every listed call of \<open>fit\<close> returned. A trace is consistent with a
  result when all its calls returned, for a result that is a value, and when all its calls
  but the last returned and the last raised the exception that is the result, otherwise.
\<close>

definition calls_succeeded :: "'p solver_env \<Rightarrow> estimator list \<Rightarrow> bool" where
  "calls_succeeded env ms = list_all (\<lambda>m. case fit_fn env m of Inl e \<Rightarrow> False | Inr w \<Rightarrow> True) ms"

definition trace_consistent :: "'p solver_env \<Rightarrow> py_error + 'a \<Rightarrow> trace \<Rightarrow> bool" where
  "trace_consistent env res t =
     (case res of
        Inr x \<Rightarrow> calls_succeeded env (fit_calls t)
      | Inl e \<Rightarrow> fit_calls t \<noteq> [] \<and> calls_succeeded env (butlast (fit_calls t))
                 \<and> fit_fn env (last (fit_calls t)) = Inl e)"

text \<open>
  A dummy model is a fitted model whose coefficients are all within the tolerance of zero.
  \<open>always_degenerate\<close>: whatever estimator the solver is called on, it returns such
  coefficients. \<open>never_out_of_time\<close>: the timer never reports the limit exceeded.
\<close>

definition is_dummy :: "estimator option \<Rightarrow> bool" where
  "is_dummy mo =
     (case mo of
        None \<Rightarrow> False
      | Some m \<Rightarrow> (case coef m of None \<Rightarrow> False | Some w \<Rightarrow> allclose0 w))"

definition always_degenerate :: "'p solver_env \<Rightarrow> bool" where
  "always_degenerate env = (\<forall>m. \<exists>w. fit_fn env m = Inr w \<and> allclose0 w)"

definition never_out_of_time :: "'p solver_env \<Rightarrow> bool" where
  "never_out_of_time env = (\<forall>q. \<not> time_limit_exceeded env q)"

subsection \<open>Reading a study\<close>

text \<open>
  \<open>earliest_best trials bp\<close>: \<open>bp\<close> is the parameters of a trial whose value no trial
  exceeds and every earlier trial falls short of. \<open>raises_OptunaError env it\<close>: one of the
  collaborators called inside the \<open>try\<close> block, sampling or \<open>fit_predict\<close>, raises an
  OptunaError on some input.
\<close>

definition earliest_best :: "'prm frozen_trial list \<Rightarrow> 'prm option \<Rightarrow> bool" where
  "earliest_best trials bp =
     (\<exists>i < length trials. bp = Some (trial_params (trials ! i))
        \<and> (\<forall>j < length trials. trial_value (trials ! j) \<le> trial_value (trials ! i))
        \<and> (\<forall>j < i. trial_value (trials ! j) < trial_value (trials ! i)))"

definition raises_OptunaError :: "('prm, 'it, 'ds) tuner_env \<Rightarrow> 'it \<Rightarrow> bool" where
  "raises_OptunaError env it =
     ((\<exists>est k. trial_params_values env est it k = Inl OptunaError)
      \<or> (\<exists>algo. fit_predict env it algo = Inl OptunaError))"

section \<open>Sample collaborators\<close>

text \<open>
  Concrete solvers, metrics and objectives on which the definitions above are run.
  \<open>solver_sparse\<close> always fits coefficients \<open>[0, 1]\<close> and scores by the strength it was
  given; \<open>solver_degenerate\<close> always fits all-zero coefficients; \<open>solver_failing\<close> raises
  on the strength 1 and fits \<open>[0, 1]\<close> otherwise. None of them ever runs out of time.
\<close>

definition strength :: "estimator \<Rightarrow> rat" where
  "strength m = (if est_class m = LogisticRegression then C m else alpha m)"



definition solver_sparse :: "rat solver_env" where
  "solver_sparse =
     \<lparr>fit_fn = (\<lambda>m. Inr [0, 1]),
      predict_fn = strength,
      metric_func = (\<lambda>pred. if pred = 10 then 1 / 2 else 9 / 10),
      time_limit_exceeded = (\<lambda>k. False),
      bw_func = (\<lambda>pred. pred)\<rparr>"

definition solver_degenerate :: "rat solver_env" where
  "solver_degenerate = solver_sparse\<lparr>fit_fn := (\<lambda>m. Inr [0, 0])\<rparr>"

definition solver_failing :: "rat solver_env" where
  "solver_failing =
     solver_sparse\<lparr>fit_fn := (\<lambda>m. if strength m = 1 then Inl (SolverError ''fit'')
                                     else Inr [0, 1])\<rparr>"

text \<open>
  A tuning session with a mocked clock: trial number \<open>k\<close> samples the parameter \<open>k\<close>, the
  first trial lasts \<open>d0\<close> and every later one \<open>d\<close>; trial 0 scores 1 and every later trial
  2; an iterator is a holdout iterator when it is \<open>True\<close>. The store holds one unfitted
  algorithm, at reference 0.
\<close>

definition mock_session :: "rat \<Rightarrow> rat \<Rightarrow> (nat, bool, nat) tuner_env" where
  "mock_session d0 d =
     \<lparr>estimate_tuner_time = (\<lambda>n. 1000),
      iterator_len = (\<lambda>it. 5),
      is_HoldoutIterator = (\<lambda>it. it),
      convert_to_holdout_iterator = (\<lambda>it. True),
      trial_params_values = (\<lambda>est it k. Inr k),
      fit_predict = (\<lambda>it algo. Inr (algo\<lparr>is_fitted := True\<rparr>, params algo)),
      score = (\<lambda>ds. if ds = 0 then 1 else 2),
      duration_of = (\<lambda>k. if k = 0 then d0 else d)\<rparr>"

definition store0 :: "nat store" where
  "store0 = [\<lparr>is_fitted = False, params = 99, mean_trial_time = None\<rparr>]"

section \<open>Properties of the dataset concatenation\<close>

lemma remdups_singleton_iff:
  "length (remdups xs) = 1 \<longleftrightarrow> (xs \<noteq> [] \<and> (\<forall>x \<in> set xs. x = hd xs))"
proof
  assume h: "length (remdups xs) = 1"
  then obtain y where y: "remdups xs = [y]"
    by (cases "remdups xs") auto
  then have s: "set xs = {y}"
    by (metis list.simps(15) empty_set set_remdups)
  then have "xs \<noteq> []" by auto
  moreover from s have "hd xs = y"
    using \<open>xs \<noteq> []\<close> by (metis hd_in_set singletonD)
  ultimately show "xs \<noteq> [] \<and> (\<forall>x \<in> set xs. x = hd xs)"
    using s by auto
next
  assume h: "xs \<noteq> [] \<and> (\<forall>x \<in> set xs. x = hd xs)"
  then have "set xs = {hd xs}" by (cases xs) auto
  then have "card (set xs) = 1" by simp
  then show "length (remdups xs) = 1"
    by (simp add: length_remdups_card_conv)
qed

lemma hd_remdups: "xs \<noteq> [] \<Longrightarrow> \<forall>x \<in> set xs. x = hd xs \<Longrightarrow> hd (remdups xs) = hd xs"
  by (metis hd_in_set remdups_eq_nil_iff set_remdups)

text \<open>
  Claim C10. For every non-empty sequence of datasets, \<open>concatenate\<close> dispatches on the set
  of dataset types: when all datasets have one type, that type's \<open>concat\<close> is applied; when
  the types are exactly NumpyDataset and CSRSparseDataset, the sparse \<open>concat\<close> is applied;
  for any other mix a TypeError is raised and no concatenation was done (the state is
  untouched).
\<close>

theorem concatenate_dispatch:
  assumes "datasets \<noteq> []"
  shows "concatenate concat_of datasets s =
           (if \<forall>d \<in> set datasets. type_of d = type_of (hd datasets)
              then concat_of (type_of (hd datasets)) datasets s
            else if type_of ` set datasets = {NumpyDataset, CSRSparseDataset}
              then concat_of CSRSparseDataset datasets s
            else (Inl TypeError, s))"
proof -
  let ?ts = "map type_of datasets"
  have ne: "?ts \<noteq> []" using assms by simp
  have hd_ts: "hd ?ts = type_of (hd datasets)"
    using assms by (simp add: hd_map)
  show ?thesis
  proof (cases "\<forall>d \<in> set datasets. type_of d = type_of (hd datasets)")
    case True
    then have all: "\<forall>x \<in> set ?ts. x = hd ?ts"
      using hd_ts by auto
    then have "length (remdups ?ts) = 1"
      using ne remdups_singleton_iff [of ?ts] by blast
    moreover have "hd (remdups ?ts) = type_of (hd datasets)"
      using hd_remdups [OF ne all] hd_ts by simp
    ultimately show ?thesis
      using True by (simp add: concatenate_def get_common_concat_def)
  next
    case False
    then have "\<not> (\<forall>x \<in> set ?ts. x = hd ?ts)"
      using hd_ts by auto
    then have len: "length (remdups ?ts) \<noteq> 1"
      using remdups_singleton_iff [of ?ts] by blast
    have g: "get_common_concat datasets =
               (if type_of ` set datasets = {NumpyDataset, CSRSparseDataset}
                then Inr CSRSparseDataset else Inl TypeError)"
      using len by (simp add: get_common_concat_def)
    show ?thesis
    proof (cases "type_of ` set datasets = {NumpyDataset, CSRSparseDataset}")
      case True
      with False g show ?thesis
        by (auto simp add: concatenate_def)
    next
      case sparse: False
      with False g show ?thesis
        by (auto simp add: concatenate_def)
    qed
  qed
qed

theorem concatenate_dispatch_witness:
  "[(NumpyDataset, 1::nat), (CSRSparseDataset, 2)] \<noteq> []
   \<and> concatenate (\<lambda>k ds (s::nat). (Inr (k, map snd ds), Suc s))
        [(NumpyDataset, 1::nat), (CSRSparseDataset, 2)] 0
     = (Inr (CSRSparseDataset, [1, 2]), 1)
   \<and> concatenate (\<lambda>k ds (s::nat). (Inr (k, map snd ds), Suc s))
        [(NumpyDataset, 1::nat), (OtherDataset ''PandasDataset'', 2)] 0
     = (Inl TypeError, 0)"
  using concatenate_dispatch
    [of "[(NumpyDataset, 1::nat), (CSRSparseDataset, 2)]"
        "\<lambda>k ds (s::nat). (Inr (k, map snd ds), Suc s)" 0]
    concatenate_dispatch
    [of "[(NumpyDataset, 1::nat), (OtherDataset ''PandasDataset'', 2)]"
        "\<lambda>k ds (s::nat). (Inr (k, map snd ds), Suc s)" 0]
  by (simp add: type_of_def doubleton_eq_iff)

section \<open>Properties of the regularization path\<close>

text \<open>
  Claim C2, evaluated on a run. With the mixing ratios \<open>(3/10, 7/10)\<close> and one penalty
  strength, \<open>fit\<close> is called twice, and both times on an estimator whose \<open>l1_ratio\<close> is the
  constructor's default \<open>None\<close>: the ratio set by \<open>set_params\<close> is lost when \<open>model\<close> is
  replaced by the copy of \<open>_model\<close> in the next statement. Both calls start from an
  estimator that has no coefficients yet.
\<close>

theorem l1_ratio_not_configured:
  "map l1_ratio (fit_calls (snd (fit_predict_single_fold solver_sparse ''binary''
      \<lparr>cs = [1], early_stopping = 2, l1_ratios = [3 / 10, 7 / 10]\<rparr>))) = [None, None]
   \<and> map coef (fit_calls (snd (fit_predict_single_fold solver_sparse ''binary''
      \<lparr>cs = [1], early_stopping = 2, l1_ratios = [3 / 10, 7 / 10]\<rparr>))) = [None, None]"
  by code_simp

subsection \<open>The empty grid\<close>

lemma outer_step_empty_cs:
  assumes "best_score v = None" "best_pred v = None" "best_model v = None"
  shows "\<exists>f v' t'. outer_step env m0 [] es_lim r v t = (Inr (f, v'), t')
           \<and> best_score v' = None \<and> best_pred v' = None \<and> best_model v' = None
           \<and> fit_calls t' = fit_calls t \<and> warnings t' = warnings t"
  using assms
  by (simp add: outer_step_def enumerate_eq_zip score_ge_def Let_def split: sum.splits)

lemma outer_loop_empty_cs:
  assumes "best_score v = None" "best_pred v = None" "best_model v = None"
  shows "\<exists>v' t'. outer_loop env m0 [] es_lim rs v t = (Inr v', t')
           \<and> best_score v' = None \<and> best_pred v' = None \<and> best_model v' = None
           \<and> fit_calls t' = fit_calls t \<and> warnings t' = warnings t"
  using assms
proof (induction rs arbitrary: v t)
  case Nil
  then show ?case by simp
next
  case (Cons r rs)
  from outer_step_empty_cs [OF Cons.prems, of env m0 es_lim r t]
  obtain f v1 t1 where s: "outer_step env m0 [] es_lim r v t = (Inr (f, v1), t1)"
    and b: "best_score v1 = None" "best_pred v1 = None" "best_model v1 = None"
    and l: "fit_calls t1 = fit_calls t" "warnings t1 = warnings t"
    by blast
  show ?case
  proof (cases f)
    case Continue
    from Cons.IH [OF b, of t1] s l Continue show ?thesis by auto
  next
    case Break
    with s b l show ?thesis by simp
  qed
qed

lemma infer_params_ok:
  assumes "task_name \<in> {''binary'', ''multiclass'', ''reg''}"
  shows "\<exists>m0. infer_params task_name p = Inr (m0, cs p, l1_ratios p, early_stopping p)"
  using assms by (auto simp: infer_params_def)

lemma empty_grid_run:
  assumes "task_name \<in> {''binary'', ''multiclass'', ''reg''}"
    and "cs p = [] \<or> l1_ratios p = []"
  shows "fst (fit_predict_single_fold env task_name p) = Inr (None, bw_func env None)
         \<and> fit_calls (snd (fit_predict_single_fold env task_name p)) = []
         \<and> warnings (snd (fit_predict_single_fold env task_name p)) = []"
proof -
  from infer_params_ok [OF assms(1)] obtain m0 where
    ip: "infer_params task_name p = Inr (m0, cs p, l1_ratios p, early_stopping p)" by blast
  have iv: "best_score (init_vars m0 :: 'a vars) = None" "best_pred (init_vars m0 :: 'a vars) = None"
    "best_model (init_vars m0 :: 'a vars) = None"
    by (simp_all add: init_vars_def)
  from assms(2) show ?thesis
  proof
    assume c: "cs p = []"
    from outer_loop_empty_cs [OF iv, of env m0 "early_stopping p" "rev (sort (l1_ratios p))" trace0]
    obtain v' t' where
      "outer_loop env m0 [] (early_stopping p) (rev (sort (l1_ratios p))) (init_vars m0) trace0 = (Inr v', t')"
      "best_pred v' = None" "best_model v' = None"
      "fit_calls t' = fit_calls trace0" "warnings t' = warnings trace0"
      by blast
    then show ?thesis
      using ip c by (simp add: fit_predict_single_fold_def trace0_def)
  next
    assume "l1_ratios p = []"
    then show ?thesis
      using ip by (simp add: fit_predict_single_fold_def trace0_def init_vars_def)
  qed
qed

subsection \<open>Exceptions of the solver\<close>

lemma set_strength_ok: "\<exists>m'. set_strength m c = Inr m'"
  by (cases "est_class m") (auto simp: set_strength_def set_params_def)

lemma cell_step_calls:
  assumes "cell_step env es_lim r len n c v t = (res, t')"
  shows "\<exists>m1. fit_calls t' = fit_calls t @ [m1]
           \<and> (case res of Inl e \<Rightarrow> fit_fn env m1 = Inl e | Inr x \<Rightarrow> (\<exists>w. fit_fn env m1 = Inr w))"
proof -
  obtain m1 where m1: "set_strength (model v) c = Inr m1"
    using set_strength_ok by blast
  show ?thesis
  proof (cases "fit_fn env m1")
    case (Inl e)
    with assms m1 show ?thesis
      by (auto simp: cell_step_def)
  next
    case (Inr w)
    with assms m1 show ?thesis
      by (auto simp: cell_step_def Let_def split: if_splits)
  qed
qed

lemma cell_step_consistent:
  assumes "calls_succeeded env (fit_calls t)"
    and "cell_step env es_lim r len n c v t = (res, t')"
  shows "trace_consistent env res t'"
proof -
  from cell_step_calls [OF assms(2)] obtain m1 where
    c: "fit_calls t' = fit_calls t @ [m1]"
    and f: "case res of Inl e \<Rightarrow> fit_fn env m1 = Inl e | Inr x \<Rightarrow> (\<exists>w. fit_fn env m1 = Inr w)"
    by blast
  show ?thesis
    using assms(1) c f
    by (cases res) (auto simp: trace_consistent_def calls_succeeded_def)
qed

lemma inner_loop_consistent:
  assumes "calls_succeeded env (fit_calls t)"
    and "inner_loop env es_lim r len ncs v t = (res, t')"
  shows "trace_consistent env res t'"
  using assms
proof (induction ncs arbitrary: v t)
  case Nil
  then show ?case by (auto simp: trace_consistent_def)
next
  case (Cons nc ncs)
  obtain n c where nc: "nc = (n, c)" by (cases nc)
  obtain res1 t1 where s: "cell_step env es_lim r len n c v t = (res1, t1)"
    by (cases "cell_step env es_lim r len n c v t")
  from cell_step_consistent [OF Cons.prems(1) s] have tc: "trace_consistent env res1 t1" .
  show ?case
  proof (cases res1)
    case (Inl e)
    with Cons.prems(2) nc s tc show ?thesis
      by (auto simp: trace_consistent_def)
  next
    case (Inr fv)
    obtain f v1 where fv: "fv = (f, v1)" by (cases fv)
    from tc Inr have ok: "calls_succeeded env (fit_calls t1)"
      by (simp add: trace_consistent_def)
    show ?thesis
    proof (cases f)
      case Continue
      with Cons.prems(2) nc s Inr fv have "inner_loop env es_lim r len ncs v1 t1 = (res, t')"
        by simp
      from Cons.IH [OF ok this] show ?thesis .
    next
      case Break
      with Cons.prems(2) nc s Inr fv ok show ?thesis
        by (auto simp: trace_consistent_def)
    qed
  qed
qed

lemma outer_step_consistent:
  assumes "calls_succeeded env (fit_calls t)"
    and "outer_step env m0 cs_v es_lim r v t = (res, t')"
  shows "trace_consistent env res t'"
proof -
  let ?v3 = "(case set_params (model v) P_l1_ratio r of Inl e \<Rightarrow> v | Inr m \<Rightarrow> v\<lparr>model := m\<rparr>)
      \<lparr>model := m0, c_best_score := None, c_best_pred := None, c_best_model := None, es := 0\<rparr>"
  obtain res1 t1 where s: "inner_loop env es_lim r (length cs_v) (enumerate 0 cs_v) ?v3 t = (res1, t1)"
    by (cases "inner_loop env es_lim r (length cs_v) (enumerate 0 cs_v) ?v3 t")
  from inner_loop_consistent [OF assms(1) s] have tc: "trace_consistent env res1 t1" .
  show ?thesis
  proof (cases res1)
    case (Inl e)
    with assms(2) s tc show ?thesis
      by (auto simp: outer_step_def Let_def trace_consistent_def)
  next
    case (Inr v4)
    with assms(2) s tc show ?thesis
      by (auto simp: outer_step_def Let_def trace_consistent_def split: if_splits)
  qed
qed

lemma outer_loop_consistent:
  assumes "calls_succeeded env (fit_calls t)"
    and "outer_loop env m0 cs_v es_lim rs v t = (res, t')"
  shows "trace_consistent env res t'"
  using assms
proof (induction rs arbitrary: v t)
  case Nil
  then show ?case by (auto simp: trace_consistent_def)
next
  case (Cons r rs)
  obtain res1 t1 where s: "outer_step env m0 cs_v es_lim r v t = (res1, t1)"
    by (cases "outer_step env m0 cs_v es_lim r v t")
  from outer_step_consistent [OF Cons.prems(1) s] have tc: "trace_consistent env res1 t1" .
  show ?case
  proof (cases res1)
    case (Inl e)
    with Cons.prems(2) s tc show ?thesis
      by (auto simp: trace_consistent_def)
  next
    case (Inr fv)
    obtain f v1 where fv: "fv = (f, v1)" by (cases fv)
    from tc Inr have ok: "calls_succeeded env (fit_calls t1)"
      by (simp add: trace_consistent_def)
    show ?thesis
    proof (cases f)
      case Continue
      with Cons.prems(2) s Inr fv have "outer_loop env m0 cs_v es_lim rs v1 t1 = (res, t')"
        by simp
      from Cons.IH [OF ok this] show ?thesis .
    next
      case Break
      with Cons.prems(2) s Inr fv ok show ?thesis
        by (auto simp: trace_consistent_def)
    qed
  qed
qed

lemma fit_predict_single_fold_consistent:
  "fit_calls (snd (fit_predict_single_fold env task_name p)) = []
   \<or> trace_consistent env (fst (fit_predict_single_fold env task_name p))
        (snd (fit_predict_single_fold env task_name p))"
proof (cases "infer_params task_name p")
  case (Inl e)
  then show ?thesis by (simp add: fit_predict_single_fold_def trace0_def)
next
  case (Inr q)
  obtain m0 cs_v rs es_lim where q: "q = (m0, cs_v, rs, es_lim)" by (cases q)
  obtain res t where s:
    "outer_loop env m0 cs_v es_lim (rev (sort rs)) (init_vars m0) trace0 = (res, t)"
    by (cases "outer_loop env m0 cs_v es_lim (rev (sort rs)) (init_vars m0) trace0")
  have "calls_succeeded env (fit_calls trace0)"
    by (simp add: calls_succeeded_def trace0_def)
  from outer_loop_consistent [OF this s] have "trace_consistent env res t" .
  then show ?thesis
    using Inr q s by (cases res) (auto simp: fit_predict_single_fold_def trace_consistent_def)
qed

lemma calls_succeeded_nth:
  "calls_succeeded env ms \<Longrightarrow> i < length ms \<Longrightarrow> fit_fn env (ms ! i) \<noteq> Inl e"
  by (auto simp: calls_succeeded_def list_all_length split: sum.splits)

text \<open>
  Claim C5, as the code has it. \<open>model.fit\<close> stands outside every \<open>try\<close> block, so an
  exception of the solver is not caught: whenever a call of \<open>fit\<close> made by the search
  raised, that call is the last one the search made, and the exception is the result of
  the search. No later cell is fitted, whatever the other cells would have done.
\<close>

theorem solver_error_propagates:
  assumes "i < length (fit_calls (snd (fit_predict_single_fold env task_name p)))"
    and "fit_fn env (fit_calls (snd (fit_predict_single_fold env task_name p)) ! i) = Inl e"
  shows "Suc i = length (fit_calls (snd (fit_predict_single_fold env task_name p)))
         \<and> fst (fit_predict_single_fold env task_name p) = Inl e"
proof -
  let ?R = "fit_predict_single_fold env task_name p"
  let ?ms = "fit_calls (snd ?R)"
  from assms(1) have ne: "?ms \<noteq> []" by auto
  with fit_predict_single_fold_consistent [of env task_name p]
  have tc: "trace_consistent env (fst ?R) (snd ?R)" by simp
  show ?thesis
  proof (cases "fst ?R")
    case (Inr x)
    with tc have "calls_succeeded env ?ms" by (simp add: trace_consistent_def)
    from calls_succeeded_nth [OF this assms(1), of e] assms(2) show ?thesis by simp
  next
    case (Inl e')
    with tc have b: "calls_succeeded env (butlast ?ms)" and l: "fit_fn env (last ?ms) = Inl e'"
      by (simp_all add: trace_consistent_def)
    have "\<not> i < length (butlast ?ms)"
    proof
      assume lt: "i < length (butlast ?ms)"
      from calls_succeeded_nth [OF b lt] have "fit_fn env (butlast ?ms ! i) \<noteq> Inl e" .
      moreover have "butlast ?ms ! i = ?ms ! i" using lt by (simp add: nth_butlast)
      ultimately show False using assms(2) by simp
    qed
    with assms(1) have i: "Suc i = length ?ms" by simp
    have "length ?ms - 1 = i" using i by arith
    then have "?ms ! i = last ?ms" using ne last_conv_nth [of ?ms] by simp
    with l assms(2) have "e' = e" by simp
    with i Inl show ?thesis by simp
  qed
qed

theorem solver_error_propagates_witness:
  "fst (fit_predict_single_fold solver_failing ''binary''
          \<lparr>cs = [1, 10], early_stopping = 2, l1_ratios = [1]\<rparr>) = Inl (SolverError ''fit'')
   \<and> length (fit_calls (snd (fit_predict_single_fold solver_failing ''binary''
          \<lparr>cs = [1, 10], early_stopping = 2, l1_ratios = [1]\<rparr>))) = 1"
proof -
  let ?R = "fit_predict_single_fold solver_failing ''binary''
          \<lparr>cs = [1, 10], early_stopping = 2, l1_ratios = [1]\<rparr>"
  have c: "fit_calls (snd ?R) = [(new_LogisticRegression ''l1'')\<lparr>C := 1\<rparr>]"
    by code_simp
  have f: "fit_fn solver_failing ((new_LogisticRegression ''l1'')\<lparr>C := 1\<rparr>) = Inl (SolverError ''fit'')"
    by code_simp
  from solver_error_propagates [of 0 solver_failing "''binary''"
      "\<lparr>cs = [1, 10], early_stopping = 2, l1_ratios = [1]\<rparr>" "SolverError ''fit''"] c f
  show ?thesis by simp
qed

text \<open>
  The claim as stated fails: of the strengths \<open>[10, 1, 100]\<close> the first fits, the second
  raises, and the search raises with it after two calls, the third cell never tried.
\<close>

theorem failing_cell_not_skipped:
  "fst (fit_predict_single_fold solver_failing ''binary''
          \<lparr>cs = [10, 1, 100], early_stopping = 2, l1_ratios = [1]\<rparr>)
     = Inl (SolverError ''fit'')
   \<and> map C (fit_calls (snd (fit_predict_single_fold solver_failing ''binary''
          \<lparr>cs = [10, 1, 100], early_stopping = 2, l1_ratios = [1]\<rparr>))) = [10, 1]"
  by code_simp

subsection \<open>The empty grid, and what the search raises\<close>

lemma infer_params_unsupported:
  assumes "task_name \<notin> {''binary'', ''multiclass'', ''reg''}"
  shows "infer_params task_name p = Inl AttributeError"
  using assms by (auto simp: infer_params_def)

lemma supported_run_consistent:
  assumes "task_name \<in> {''binary'', ''multiclass'', ''reg''}"
  shows "trace_consistent env (fst (fit_predict_single_fold env task_name p))
           (snd (fit_predict_single_fold env task_name p))"
proof -
  from infer_params_ok [OF assms] obtain m0 where
    ip: "infer_params task_name p = Inr (m0, cs p, l1_ratios p, early_stopping p)" by blast
  obtain res t where s:
    "outer_loop env m0 (cs p) (early_stopping p) (rev (sort (l1_ratios p))) (init_vars m0) trace0
       = (res, t)"
    by (cases "outer_loop env m0 (cs p) (early_stopping p) (rev (sort (l1_ratios p)))
                 (init_vars m0) trace0")
  have "calls_succeeded env (fit_calls trace0)"
    by (simp add: calls_succeeded_def trace0_def)
  from outer_loop_consistent [OF this s] have "trace_consistent env res t" .
  then show ?thesis
    using ip s by (cases res) (auto simp: fit_predict_single_fold_def trace_consistent_def)
qed

text \<open>
  Claim C3, as the code has it. No exception named ConfigurationError exists in the
  search. For a supported task and an empty sequence of penalty strengths (or of mixing
  ratios) the search calls the solver's \<open>fit\<close> not once, emits no warning, raises nothing
  and returns \<open>None\<close> as the model, with \<open>bw_func(None)\<close> as the predictions. For an
  unsupported task it raises AttributeError before anything else is done. These are the
  search's own: any other exception that leaves it was raised by the last call of the
  solver's \<open>fit\<close>.
\<close>

theorem empty_grid_returns_none:
  "(task_name \<in> {''binary'', ''multiclass'', ''reg''} \<and> (cs p = [] \<or> l1_ratios p = [])
      \<longrightarrow> fst (fit_predict_single_fold env task_name p) = Inr (None, bw_func env None)
          \<and> fit_calls (snd (fit_predict_single_fold env task_name p)) = []
          \<and> warnings (snd (fit_predict_single_fold env task_name p)) = [])
   \<and> (task_name \<notin> {''binary'', ''multiclass'', ''reg''}
      \<longrightarrow> fit_predict_single_fold env task_name p = (Inl AttributeError, trace0))
   \<and> (\<forall>e. task_name \<in> {''binary'', ''multiclass'', ''reg''}
          \<and> fst (fit_predict_single_fold env task_name p) = Inl e
      \<longrightarrow> fit_calls (snd (fit_predict_single_fold env task_name p)) \<noteq> []
          \<and> fit_fn env (last (fit_calls (snd (fit_predict_single_fold env task_name p))))
              = Inl e)"
proof (intro conjI impI allI)
  assume a: "task_name \<in> {''binary'', ''multiclass'', ''reg''} \<and> (cs p = [] \<or> l1_ratios p = [])"
  then have t: "task_name \<in> {''binary'', ''multiclass'', ''reg''}"
    and g: "cs p = [] \<or> l1_ratios p = []" by simp_all
  from empty_grid_run [OF t g, of env]
  show "fst (fit_predict_single_fold env task_name p) = Inr (None, bw_func env None)"
    and "fit_calls (snd (fit_predict_single_fold env task_name p)) = []"
    and "warnings (snd (fit_predict_single_fold env task_name p)) = []"
    by simp_all
next
  assume "task_name \<notin> {''binary'', ''multiclass'', ''reg''}"
  from infer_params_unsupported [OF this, of p]
  show "fit_predict_single_fold env task_name p = (Inl AttributeError, trace0)"
    by (simp add: fit_predict_single_fold_def)
next
  fix e
  assume a: "task_name \<in> {''binary'', ''multiclass'', ''reg''}
             \<and> fst (fit_predict_single_fold env task_name p) = Inl e"
  then have t: "task_name \<in> {''binary'', ''multiclass'', ''reg''}"
    and r: "fst (fit_predict_single_fold env task_name p) = Inl e" by simp_all
  from supported_run_consistent [OF t, of env p] r
  show "fit_calls (snd (fit_predict_single_fold env task_name p)) \<noteq> []"
    and "fit_fn env (last (fit_calls (snd (fit_predict_single_fold env task_name p)))) = Inl e"
    by (simp_all add: trace_consistent_def)
qed

theorem empty_grid_returns_none_witness:
  "fst (fit_predict_single_fold solver_sparse ''binary''
          \<lparr>cs = [], early_stopping = 2, l1_ratios = [1]\<rparr>) = Inr (None, None)
   \<and> fit_calls (snd (fit_predict_single_fold solver_sparse ''binary''
          \<lparr>cs = [], early_stopping = 2, l1_ratios = [1]\<rparr>)) = []
   \<and> fit_predict_single_fold solver_sparse ''ranking''
          \<lparr>cs = [1], early_stopping = 2, l1_ratios = [1]\<rparr> = (Inl AttributeError, trace0)
   \<and> fit_fn solver_failing
        (last (fit_calls (snd (fit_predict_single_fold solver_failing ''reg''
          \<lparr>cs = [1], early_stopping = 2, l1_ratios = [1]\<rparr>)))) = Inl (SolverError ''fit'')"
proof -
  have r: "fst (fit_predict_single_fold solver_failing ''reg''
          \<lparr>cs = [1], early_stopping = 2, l1_ratios = [1]\<rparr>) = Inl (SolverError ''fit'')"
    by code_simp
  from empty_grid_returns_none
      [of "''binary''" "\<lparr>cs = [], early_stopping = 2, l1_ratios = [1]\<rparr>" solver_sparse]
    empty_grid_returns_none
      [of "''ranking''" "\<lparr>cs = [1], early_stopping = 2, l1_ratios = [1]\<rparr>" solver_sparse]
    empty_grid_returns_none
      [of "''reg''" "\<lparr>cs = [1], early_stopping = 2, l1_ratios = [1]\<rparr>" solver_failing] r
  show ?thesis by (simp add: solver_sparse_def)
qed

text \<open>
  The claim as stated fails: on an empty sequence of penalty strengths the search returns
  normally, with \<open>(None, None)\<close>, instead of raising.
\<close>

theorem empty_grid_does_not_raise:
  "fit_predict_single_fold solver_sparse ''reg''
      \<lparr>cs = [], early_stopping = 2, l1_ratios = [1 / 2, 1]\<rparr>
    = (Inr (None, None), \<lparr>fit_calls = [], warnings = [], timer_queries = 2\<rparr>)"
  by code_simp

subsection \<open>The degenerate path\<close>

lemma cell_step_degenerate_inner:
  assumes "always_degenerate env" and "int n \<noteq> int len - 1"
  shows "\<exists>v' t'. cell_step env es_lim r len n c v t = (Inr (Continue, v'), t')
           \<and> c_best_score v' = c_best_score v \<and> best_score v' = best_score v
           \<and> best_model v' = best_model v \<and> warnings t' = warnings t"
proof -
  obtain m1 where m1: "set_strength (model v) c = Inr m1"
    using set_strength_ok by blast
  from assms(1) obtain w where w: "fit_fn env m1 = Inr w" "allclose0 w"
    unfolding always_degenerate_def by blast
  show ?thesis
    using m1 w assms(2) by (simp add: cell_step_def Let_def)
qed

lemma cell_step_degenerate_last:
  assumes "always_degenerate env" and "int n = int len - 1" and "c_best_score v = None"
  shows "\<exists>f v' t'. cell_step env es_lim r len n c v t = (Inr (f, v'), t')
           \<and> is_dummy (c_best_model v') \<and> c_best_score v' \<noteq> None
           \<and> best_score v' = best_score v \<and> best_model v' = best_model v
           \<and> warnings t' = warnings t @ [r]"
proof -
  obtain m1 where m1: "set_strength (model v) c = Inr m1"
    using set_strength_ok by blast
  from assms(1) obtain w where w: "fit_fn env m1 = Inr w" "allclose0 w"
    unfolding always_degenerate_def by blast
  show ?thesis
    using m1 w assms(2,3)
    by (simp add: cell_step_def Let_def score_ge_def is_dummy_def)
qed

lemma inner_loop_degenerate:
  assumes "always_degenerate env" and "xs \<noteq> []" and "len = k + length xs"
    and "c_best_score v = None"
  shows "\<exists>v' t'. inner_loop env es_lim r len (enumerate k xs) v t = (Inr v', t')
           \<and> is_dummy (c_best_model v') \<and> c_best_score v' \<noteq> None
           \<and> best_score v' = best_score v \<and> best_model v' = best_model v
           \<and> warnings t' = warnings t @ [r]"
  using assms(2-4)
proof (induction xs arbitrary: k v t)
  case Nil
  then show ?case by simp
next
  case (Cons c xs)
  show ?case
  proof (cases "xs = []")
    case True
    with Cons.prems have n: "int k = int len - 1" by simp
    from cell_step_degenerate_last [OF assms(1) n Cons.prems(3), of es_lim r c t]
    obtain f v' t' where s: "cell_step env es_lim r len k c v t = (Inr (f, v'), t')"
      and p: "is_dummy (c_best_model v')" "c_best_score v' \<noteq> None"
        "best_score v' = best_score v" "best_model v' = best_model v"
        "warnings t' = warnings t @ [r]"
      by blast
    show ?thesis
      using True s p by (cases f) simp_all
  next
    case False
    with Cons.prems have n: "int k \<noteq> int len - 1" by (cases xs) auto
    from cell_step_degenerate_inner [OF assms(1) n, of es_lim r c v t]
    obtain v1 t1 where s: "cell_step env es_lim r len k c v t = (Inr (Continue, v1), t1)"
      and p: "c_best_score v1 = c_best_score v" "best_score v1 = best_score v"
        "best_model v1 = best_model v" "warnings t1 = warnings t"
      by blast
    have l: "len = Suc k + length xs" using Cons.prems by simp
    have c0: "c_best_score v1 = None" using p Cons.prems by simp
    from Cons.IH [OF False l c0, of t1]
    obtain v' t' where
      "inner_loop env es_lim r len (enumerate (Suc k) xs) v1 t1 = (Inr v', t')"
      "is_dummy (c_best_model v')" "c_best_score v' \<noteq> None"
      "best_score v' = best_score v1" "best_model v' = best_model v1"
      "warnings t' = warnings t1 @ [r]"
      by blast
    then show ?thesis
      using s p by simp
  qed
qed

lemma outer_step_degenerate:
  assumes "always_degenerate env" and "cs_v \<noteq> []"
    and "best_score v = None \<or> is_dummy (best_model v)"
  shows "\<exists>f v' t'. outer_step env m0 cs_v es_lim r v t = (Inr (f, v'), t')
           \<and> is_dummy (best_model v') \<and> warnings t' = warnings t @ [r]
           \<and> (never_out_of_time env \<longrightarrow> f = Continue)"
proof -
  let ?v3 = "(case set_params (model v) P_l1_ratio r of Inl e \<Rightarrow> v | Inr m \<Rightarrow> v\<lparr>model := m\<rparr>)
      \<lparr>model := m0, c_best_score := None, c_best_pred := None, c_best_model := None, es := 0\<rparr>"
  have b: "best_score ?v3 = best_score v" "best_model ?v3 = best_model v"
    by (simp_all split: sum.splits)
  have "c_best_score ?v3 = None" by simp
  from inner_loop_degenerate [OF assms(1,2) _ this, of "length cs_v" 0 es_lim r t]
  obtain v4 t4 where s: "inner_loop env es_lim r (length cs_v) (enumerate 0 cs_v) ?v3 t = (Inr v4, t4)"
    and p: "is_dummy (c_best_model v4)" "c_best_score v4 \<noteq> None"
      "best_score v4 = best_score ?v3" "best_model v4 = best_model ?v3"
      "warnings t4 = warnings t @ [r]"
    by auto
  from p(2) obtain sc where sc: "c_best_score v4 = Some sc" by auto
  show ?thesis
    using s p sc b assms(3)
    by (auto simp: outer_step_def Let_def score_ge_def never_out_of_time_def split: option.splits)
qed

lemma outer_loop_degenerate:
  assumes "always_degenerate env" and "cs_v \<noteq> []"
    and "best_score v = None \<or> is_dummy (best_model v)"
  shows "\<exists>v' t' k. outer_loop env m0 cs_v es_lim rs v t = (Inr v', t')
           \<and> (rs \<noteq> [] \<longrightarrow> is_dummy (best_model v') \<and> 1 \<le> k) \<and> k \<le> length rs
           \<and> warnings t' = warnings t @ take k rs
           \<and> (never_out_of_time env \<longrightarrow> k = length rs)"
  using assms(3)
proof (induction rs arbitrary: v t)
  case Nil
  then show ?case by simp
next
  case (Cons r rs)
  from outer_step_degenerate [OF assms(1,2) Cons.prems, of m0 es_lim r t]
  obtain f v1 t1 where s: "outer_step env m0 cs_v es_lim r v t = (Inr (f, v1), t1)"
    and p: "is_dummy (best_model v1)" "warnings t1 = warnings t @ [r]"
      "never_out_of_time env \<longrightarrow> f = Continue"
    by blast
  show ?case
  proof (cases f)
    case Break
    with s p have "outer_loop env m0 cs_v es_lim (r # rs) v t = (Inr v1, t1)
        \<and> is_dummy (best_model v1) \<and> (1::nat) \<le> 1 \<and> 1 \<le> length (r # rs)
        \<and> warnings t1 = warnings t @ take 1 (r # rs)
        \<and> (never_out_of_time env \<longrightarrow> 1 = length (r # rs))"
      by simp
    then show ?thesis by blast
  next
    case Continue
    from p(1) have "best_score v1 = None \<or> is_dummy (best_model v1)" by simp
    from Cons.IH [OF this, of t1]
    obtain v' t' k where i: "outer_loop env m0 cs_v es_lim rs v1 t1 = (Inr v', t')"
      "rs \<noteq> [] \<longrightarrow> is_dummy (best_model v') \<and> 1 \<le> k" "k \<le> length rs"
      "warnings t' = warnings t1 @ take k rs"
      "never_out_of_time env \<longrightarrow> k = length rs"
      by blast
    have d: "is_dummy (best_model v')"
    proof (cases "rs = []")
      case True
      with i(1) p(1) show ?thesis by simp
    next
      case False
      with i(2) show ?thesis by simp
    qed
    have "outer_loop env m0 cs_v es_lim (r # rs) v t = (Inr v', t')
        \<and> is_dummy (best_model v') \<and> 1 \<le> Suc k \<and> Suc k \<le> length (r # rs)
        \<and> warnings t' = warnings t @ take (Suc k) (r # rs)
        \<and> (never_out_of_time env \<longrightarrow> Suc k = length (r # rs))"
      using s Continue i p d by simp
    then show ?thesis by blast
  qed
qed

text \<open>
  Claim C4, as the code has it. When every fit yields all-zero coefficients (supported
  task, non-empty \<open>cs\<close> and \<open>l1_ratios\<close>), the search raises nothing and returns a dummy
  model. The warning is emitted at the last penalty strength of each mixing ratio visited,
  and names that ratio: the warnings are the first \<open>k\<close> ratios in descending order, with
  \<open>k\<close> at least one, and all of them when the time limit is never exceeded. So exactly
  one warning is emitted for a single mixing ratio, and one per ratio otherwise.
\<close>

theorem degenerate_path_warns_per_ratio:
  assumes "task_name \<in> {''binary'', ''multiclass'', ''reg''}"
    and "cs p \<noteq> []" and "l1_ratios p \<noteq> []"
    and "always_degenerate env"
  shows "\<exists>m pv k. fst (fit_predict_single_fold env task_name p) = Inr (Some m, pv)
           \<and> is_dummy (Some m)
           \<and> 1 \<le> k \<and> k \<le> length (l1_ratios p)
           \<and> warnings (snd (fit_predict_single_fold env task_name p))
               = take k (rev (sort (l1_ratios p)))
           \<and> (never_out_of_time env \<longrightarrow> k = length (l1_ratios p))"
proof -
  from infer_params_ok [OF assms(1)] obtain m0 where
    ip: "infer_params task_name p = Inr (m0, cs p, l1_ratios p, early_stopping p)" by blast
  let ?rs = "rev (sort (l1_ratios p))"
  have "length ?rs = length (l1_ratios p)" by simp
  with assms(3) have ne: "?rs \<noteq> []" by (metis length_0_conv)
  have "best_score (init_vars m0 :: 'a vars) = None \<or> is_dummy (best_model (init_vars m0 :: 'a vars))"
    by (simp add: init_vars_def)
  from outer_loop_degenerate [OF assms(4,2) this, of m0 "early_stopping p" ?rs trace0]
  obtain v' t' k where o: "outer_loop env m0 (cs p) (early_stopping p) ?rs (init_vars m0) trace0 = (Inr v', t')"
    and q: "?rs \<noteq> [] \<longrightarrow> is_dummy (best_model v') \<and> 1 \<le> k" "k \<le> length ?rs"
      "warnings t' = warnings trace0 @ take k ?rs"
      "never_out_of_time env \<longrightarrow> k = length ?rs"
    by blast
  from q(1) ne have d: "is_dummy (best_model v')" and k1: "1 \<le> k" by simp_all
  from d obtain m where m: "best_model v' = Some m"
    by (cases "best_model v'") (simp_all add: is_dummy_def)
  have "fst (fit_predict_single_fold env task_name p) = Inr (Some m, bw_func env (best_pred v'))
        \<and> is_dummy (Some m) \<and> 1 \<le> k \<and> k \<le> length (l1_ratios p)
        \<and> warnings (snd (fit_predict_single_fold env task_name p)) = take k ?rs
        \<and> (never_out_of_time env \<longrightarrow> k = length (l1_ratios p))"
    using ip o q d k1 m by (simp add: fit_predict_single_fold_def trace0_def)
  then show ?thesis by blast
qed

theorem degenerate_path_warns_per_ratio_witness:
  "\<exists>m pv k. fst (fit_predict_single_fold solver_degenerate ''reg''
                    \<lparr>cs = [1, 10], early_stopping = 2, l1_ratios = [1 / 2, 1]\<rparr>) = Inr (Some m, pv)
           \<and> is_dummy (Some m)
           \<and> 1 \<le> k \<and> k \<le> (2::nat)
           \<and> warnings (snd (fit_predict_single_fold solver_degenerate ''reg''
                    \<lparr>cs = [1, 10], early_stopping = 2, l1_ratios = [1 / 2, 1]\<rparr>))
               = take k [1, 1 / 2]
           \<and> k = 2"
proof -
  have a: "always_degenerate solver_degenerate"
    by (simp add: always_degenerate_def solver_degenerate_def solver_sparse_def allclose0_def)
  have n: "never_out_of_time solver_degenerate"
    by (simp add: never_out_of_time_def solver_degenerate_def solver_sparse_def)
  have s: "rev (sort [1 / 2, 1 :: rat]) = [1, 1 / 2]"
    by code_simp
  from degenerate_path_warns_per_ratio [of "''reg''"
      "\<lparr>cs = [1, 10], early_stopping = 2, l1_ratios = [1 / 2, 1]\<rparr>" solver_degenerate] a n s
  show ?thesis by simp
qed

text \<open>
  The claim as stated fails: with two mixing ratios and every cell degenerate, the run
  emits two warnings, one for each ratio.
\<close>

theorem degenerate_path_two_warnings:
  "warnings (snd (fit_predict_single_fold solver_degenerate ''binary''
      \<lparr>cs = [1, 10], early_stopping = 2, l1_ratios = [1 / 2, 1]\<rparr>)) = [1, 1 / 2]"
  by code_simp

subsection \<open>Ties\<close>















section \<open>Properties of the tuner\<close>

subsection \<open>One pass through \<open>optimize\<close>\<close>

text \<open>
  The equation of \<open>optimize\<close> unfolds without end; it is taken out of the simplifier and
  replaced by the case analysis of one pass through the loop.
\<close>

declare optimize.simps [simp del]

lemma optimize_cases:
  obtains (stop) "n \<le> int i \<or> t \<le> elapsed (study tn)"
      and "optimize env est it a n t i tn h = (None, tn, h)"
  | (raise) e h1 where "\<not> n \<le> int i" and "\<not> t \<le> elapsed (study tn)"
      and "objective env est it a i h = (Inl e, h1)"
      and "optimize env est it a n t i tn h = (Some e, tn, h1)"
  | (callback_raise) prm v h1 e tn2 h2 where "\<not> n \<le> int i" and "\<not> t \<le> elapsed (study tn)"
      and "objective env est it a i h = (Inr (prm, v), h1)"
      and "update_trial_time
             (tn\<lparr>study := study tn @ [\<lparr>trial_params = prm, trial_value = v,
                     trial_duration = duration_of env i\<rparr>]\<rparr>) a h1 = (Some e, tn2, h2)"
      and "optimize env est it a n t i tn h = (Some e, tn2, h2)"
  | (step) prm v h1 tn2 h2 where "\<not> n \<le> int i" and "\<not> t \<le> elapsed (study tn)"
      and "objective env est it a i h = (Inr (prm, v), h1)"
      and "update_trial_time
             (tn\<lparr>study := study tn @ [\<lparr>trial_params = prm, trial_value = v,
                     trial_duration = duration_of env i\<rparr>]\<rparr>) a h1 = (None, tn2, h2)"
      and "optimize env est it a n t i tn h = optimize env est it a n t (Suc i) tn2 h2"
proof (cases "n \<le> int i \<or> t \<le> elapsed (study tn)")
  case True
  then have "optimize env est it a n t i tn h = (None, tn, h)"
    by (subst optimize.simps) auto
  with True show ?thesis by (rule stop)
next
  case False
  then have c: "\<not> n \<le> int i" "\<not> t \<le> elapsed (study tn)" by simp_all
  obtain r h1 where o: "objective env est it a i h = (r, h1)"
    by (cases "objective env est it a i h")
  show ?thesis
  proof (cases r)
    case (Inl e)
    have "optimize env est it a n t i tn h = (Some e, tn, h1)"
      using c o Inl by (subst optimize.simps) simp
    with c o Inl show ?thesis by (auto intro: raise)
  next
    case (Inr pv)
    obtain prm v where pv: "pv = (prm, v)" by (cases pv)
    let ?tn1 = "tn\<lparr>study := study tn @ [\<lparr>trial_params = prm, trial_value = v,
                     trial_duration = duration_of env i\<rparr>]\<rparr>"
    obtain eo tn2 h2 where u: "update_trial_time ?tn1 a h1 = (eo, tn2, h2)"
      by (cases "update_trial_time ?tn1 a h1")
    show ?thesis
    proof (cases eo)
      case None
      have "optimize env est it a n t i tn h = optimize env est it a n t (Suc i) tn2 h2"
        using c o Inr pv u None by (subst optimize.simps) simp
      with c o Inr pv u None show ?thesis by (auto intro: step)
    next
      case (Some e)
      have "optimize env est it a n t i tn h = (Some e, tn2, h2)"
        using c o Inr pv u Some by (subst optimize.simps) simp
      with c o Inr pv u Some show ?thesis by (auto intro: callback_raise)
    qed
  qed
qed

subsection \<open>The caller's algorithm\<close>

lemma objective_frame:
  assumes "objective env est it a k h = (r, h')"
  shows "length h' = Suc (length h) \<and> take (length h) h' = h"
  using assms
  by (auto simp: objective_def deepcopy_def Let_def split: sum.splits prod.splits)

lemma update_trial_time_frame:
  assumes "update_trial_time tn a h = (eo, tn', h')"
  shows "length h' = length h \<and> (\<forall>n0 \<le> a. take n0 h' = take n0 h)"
  using assms
  by (auto simp: update_trial_time_def Let_def split: if_splits)

lemma take_take_le: "n0 \<le> m \<Longrightarrow> take n0 (take m xs) = take n0 xs"
  by (simp add: min.absorb1)

lemma objective_frame_le:
  assumes "objective env est it a k h = (r, h')" and "n0 \<le> length h"
  shows "length h \<le> length h' \<and> take n0 h' = take n0 h"
proof -
  from objective_frame [OF assms(1)] have l: "length h' = Suc (length h)"
    and t: "take (length h) h' = h" by simp_all
  have "take n0 (take (length h) h') = take n0 h'"
    using assms(2) by (rule take_take_le)
  with t l show ?thesis by simp
qed

lemma optimize_frame:
  assumes "n0 \<le> a" and "a < length h"
    and "optimize env est it a n t i tn h = (eo, tn', h')"
  shows "length h \<le> length h' \<and> take n0 h' = take n0 h"
  using assms(2,3)
proof (induction "nat (n - int i)" arbitrary: i tn h rule: less_induct)
  case less
  have n0: "n0 \<le> length h" using assms(1) less.prems(1) by simp
  show ?case
  proof (cases rule: optimize_cases [of n i t tn env est it a h])
    case stop
    with less.prems show ?thesis by simp
  next
    case (raise e h1)
    from objective_frame_le [OF raise(3) n0] raise(4) less.prems(2) show ?thesis by simp
  next
    case (callback_raise prm v h1 e tn2 h2)
    from objective_frame_le [OF callback_raise(3) n0]
    have o: "length h \<le> length h1" "take n0 h1 = take n0 h" by simp_all
    from update_trial_time_frame [OF callback_raise(4)] assms(1)
    have u: "length h2 = length h1" "take n0 h2 = take n0 h1" by simp_all
    from callback_raise(5) less.prems(2) have "h' = h2" by simp
    with o u show ?thesis by simp
  next
    case (step prm v h1 tn2 h2)
    from objective_frame_le [OF step(3) n0]
    have o: "length h \<le> length h1" "take n0 h1 = take n0 h" by simp_all
    from update_trial_time_frame [OF step(4)] assms(1)
    have u: "length h2 = length h1" "take n0 h2 = take n0 h1" by simp_all
    have m: "nat (n - int (Suc i)) < nat (n - int i)" using step(1) by simp
    have a2: "a < length h2" using less.prems(1) o u by simp
    have r: "optimize env est it a n t (Suc i) tn2 h2 = (eo, tn', h')"
      using step(5) less.prems(2) by simp
    from less.hyps [OF m a2 r] o u show ?thesis by simp
  qed
qed

lemma fit_try_frame:
  assumes "n0 \<le> a" and "a < length h"
    and "fit_try env tn a it flg h = (r, tn', h')"
  shows "length h \<le> length h' \<and> take n0 h' = take n0 h"
proof (cases "direction tn \<notin> {''minimize'', ''maximize''}")
  case True
  with assms(3) show ?thesis by (simp add: fit_try_def)
next
  case False
  obtain eo tn1 h1 where o: "optimize env (estimated_n_trials tn) it a (n_trials tn) (timeout tn) 0
        (tn\<lparr>study := []\<rparr>) h = (eo, tn1, h1)"
    by (cases "optimize env (estimated_n_trials tn) it a (n_trials tn) (timeout tn) 0
        (tn\<lparr>study := []\<rparr>) h")
  from optimize_frame [OF assms(1,2) o]
  have f: "length h \<le> length h1" "take n0 h1 = take n0 h" by simp_all
  have w: "\<And>x. take n0 (h1[a := x]) = take n0 h1" using assms(1) by simp
  show ?thesis
    using assms(3) False o f w
    by (auto simp: fit_try_def Let_def split: option.splits sum.splits prod.splits if_splits)
qed

text \<open>
  Claim C9. \<open>fit\<close> works on a deep copy: for a valid reference \<open>a\<close> of the caller's
  algorithm, every object that existed before the call, the caller's among them, is the
  same after it, whatever the outcome (a result, \<open>(None, None)\<close> or an exception); and an
  algorithm that is already fitted is rejected by the assertion before anything is done.
\<close>

theorem fit_leaves_caller_algo_unchanged:
  assumes "a < length h"
  shows "take (length h) (snd (snd (fit env tn a it h))) = h
         \<and> snd (snd (fit env tn a it h)) ! a = h ! a
         \<and> (is_fitted (h ! a) \<longrightarrow> fit env tn a it h = (Inl AssertionError, tn, h))"
proof (cases "is_fitted (h ! a)")
  case True
  then show ?thesis by (simp add: fit_def)
next
  case False
  define tn1 where "tn1 = upd_timeout tn (max (estimate_tuner_time env (iterator_len env it)) 1)"
  define flg where "flg = (fit_on_holdout tn1 \<and> \<not> is_HoldoutIterator env it)"
  define it1 where "it1 = (if flg then convert_to_holdout_iterator env it else it)"
  define h1 where "h1 = h @ [h ! a]"
  obtain r tn2 h2 where t: "fit_try env tn1 (length h) it1 flg h1 = (r, tn2, h2)"
    by (cases "fit_try env tn1 (length h) it1 flg h1")
  have "length h < length h1" by (simp add: h1_def)
  from fit_try_frame [OF order_refl this t]
  have f: "length h1 \<le> length h2" "take (length h) h2 = take (length h) h1" by simp_all
  then have p: "take (length h) h2 = h" by (simp add: h1_def)
  have r: "snd (snd (fit env tn a it h)) = h2"
    using False t
    by (cases r) (simp_all add: fit_def Let_def deepcopy_def tn1_def [symmetric]
        flg_def [symmetric] it1_def [symmetric] h1_def [symmetric])
  have "h2 ! a = take (length h) h2 ! a" using assms by simp
  with p have "h2 ! a = h ! a" by simp
  with p r False show ?thesis by simp
qed

theorem fit_leaves_caller_algo_unchanged_witness:
  "(0::nat) < length store0
   \<and> snd (snd (fit (mock_session 2 2) (new_OptunaTuner 5 100 ''maximize'' True 42) 0 False
                 store0)) ! 0
       = \<lparr>is_fitted = False, params = 99, mean_trial_time = None\<rparr>
   \<and> fst (fit (mock_session 2 2) (new_OptunaTuner 5 100 ''maximize'' True 42) 0 False
            [\<lparr>is_fitted = True, params = 99, mean_trial_time = None\<rparr>])
       = Inl AssertionError"
  using fit_leaves_caller_algo_unchanged
      [of 0 store0 "mock_session 2 2" "new_OptunaTuner 5 100 ''maximize'' True 42" False]
    fit_leaves_caller_algo_unchanged
      [of 0 "[\<lparr>is_fitted = True, params = 99, mean_trial_time = None\<rparr>]"
          "mock_session 2 2" "new_OptunaTuner 5 100 ''maximize'' True 42" False]
  by (simp add: store0_def)

subsection \<open>The estimate of the number of trials\<close>

lemma update_trial_time_estimate:
  assumes "update_trial_time tn a h = (None, tn', h')"
  shows "estimated_n_trials tn'
           = min (of_int (n_trials tn)) (of_int \<lfloor>timeout tn / mean_duration (study tn)\<rfloor>)
         \<and> n_trials tn' = n_trials tn \<and> timeout tn' = timeout tn \<and> study tn' = study tn"
  using assms by (auto simp: update_trial_time_def Let_def split: if_splits)

lemma optimize_estimate:
  assumes "optimize env est it a n t i tn h = (None, tn', h')"
    and "study tn \<noteq> [] \<longrightarrow> estimated_n_trials tn
           = min (of_int (n_trials tn)) (of_int \<lfloor>timeout tn / mean_duration (study tn)\<rfloor>)"
  shows "(study tn' \<noteq> [] \<longrightarrow> estimated_n_trials tn'
           = min (of_int (n_trials tn')) (of_int \<lfloor>timeout tn' / mean_duration (study tn')\<rfloor>))
         \<and> n_trials tn' = n_trials tn \<and> timeout tn' = timeout tn"
  using assms
proof (induction "nat (n - int i)" arbitrary: i tn h rule: less_induct)
  case less
  show ?case
  proof (cases rule: optimize_cases [of n i t tn env est it a h])
    case stop
    with less.prems show ?thesis by simp
  next
    case (raise e h1)
    with less.prems show ?thesis by simp
  next
    case (callback_raise prm v h1 e tn2 h2)
    with less.prems show ?thesis by simp
  next
    case (step prm v h1 tn2 h2)
    let ?tn1 = "tn\<lparr>study := study tn @ [\<lparr>trial_params = prm, trial_value = v,
                     trial_duration = duration_of env i\<rparr>]\<rparr>"
    from update_trial_time_estimate [OF step(4)]
    have u: "estimated_n_trials tn2
           = min (of_int (n_trials ?tn1)) (of_int \<lfloor>timeout ?tn1 / mean_duration (study ?tn1)\<rfloor>)"
      "n_trials tn2 = n_trials ?tn1" "timeout tn2 = timeout ?tn1" "study tn2 = study ?tn1"
      by simp_all
    have inv: "study tn2 \<noteq> [] \<longrightarrow> estimated_n_trials tn2
           = min (of_int (n_trials tn2)) (of_int \<lfloor>timeout tn2 / mean_duration (study tn2)\<rfloor>)"
      using u by simp
    have m: "nat (n - int (Suc i)) < nat (n - int i)" using step(1) by simp
    have r: "optimize env est it a n t (Suc i) tn2 h2 = (None, tn', h')"
      using step(5) less.prems(1) by simp
    from less.hyps [OF m r inv] u show ?thesis by simp
  qed
qed

text \<open>
  Claim C1, as the code has it. After every completed trial of a run of \<open>optimize\<close> that
  the tuner starts, the callback has set \<open>estimated_n_trials\<close> to the floor of the tuner's
  whole \<open>timeout\<close> divided by the mean duration of all trials so far, capped by
  \<open>n_trials\<close>: \<open>min(n_trials, timeout // mean)\<close>. The time already spent is not subtracted.
\<close>

theorem estimate_from_whole_timeout:
  assumes "optimize env est it a n t 0 (tn\<lparr>study := []\<rparr>) h = (None, tn', h')"
    and "study tn' \<noteq> []"
  shows "estimated_n_trials tn'
           = min (of_int (n_trials tn)) (of_int \<lfloor>timeout tn / mean_duration (study tn')\<rfloor>)"
  using optimize_estimate [OF assms(1)] assms(2) by simp

subsection \<open>When the loop stops\<close>

lemma update_trial_time_fields:
  assumes "update_trial_time tn a h = (eo, tn', h')"
  shows "study tn' = study tn \<and> n_trials tn' = n_trials tn \<and> timeout tn' = timeout tn
         \<and> best_params tn' = best_params tn"
  using assms by (auto simp: update_trial_time_def Let_def split: if_splits)

lemma optimize_trace:
  assumes "optimize env est it a n t i tn h = (eo, tn', h')"
    and "i = length (study tn)"
  shows "take (length (study tn)) (study tn') = study tn
         \<and> best_params tn' = best_params tn
         \<and> (\<forall>k. length (study tn) \<le> k \<and> k < length (study tn')
                \<longrightarrow> int k < n \<and> elapsed (take k (study tn')) < t)
         \<and> (eo = None \<longrightarrow> n \<le> int (length (study tn')) \<or> t \<le> elapsed (study tn'))"
  using assms
proof (induction "nat (n - int i)" arbitrary: i tn h rule: less_induct)
  case less
  show ?case
  proof (cases rule: optimize_cases [of n i t tn env est it a h])
    case stop
    with less.prems show ?thesis by auto
  next
    case (raise e h1)
    with less.prems show ?thesis by simp
  next
    case (callback_raise prm v h1 e tn2 h2)
    let ?x = "\<lparr>trial_params = prm, trial_value = v, trial_duration = duration_of env i\<rparr>"
    from update_trial_time_fields [OF callback_raise(4)]
    have f: "study tn2 = study tn @ [?x]" "best_params tn2 = best_params tn" by simp_all
    from callback_raise(5) less.prems(1) have e: "tn' = tn2" "eo = Some e" by simp_all
    have "\<forall>k. length (study tn) \<le> k \<and> k < length (study tn2)
                \<longrightarrow> int k < n \<and> elapsed (take k (study tn2)) < t"
    proof (intro allI impI)
      fix k assume "length (study tn) \<le> k \<and> k < length (study tn2)"
      with f have "k = length (study tn)" by simp
      with callback_raise(1,2) f less.prems(2)
      show "int k < n \<and> elapsed (take k (study tn2)) < t" by simp
    qed
    with e f show ?thesis by simp
  next
    case (step prm v h1 tn2 h2)
    let ?x = "\<lparr>trial_params = prm, trial_value = v, trial_duration = duration_of env i\<rparr>"
    from update_trial_time_fields [OF step(4)]
    have s2: "study tn2 = study tn @ [?x]" and b2: "best_params tn2 = best_params tn"
      by simp_all
    then have l2: "Suc i = length (study tn2)" using less.prems(2) by simp
    have m: "nat (n - int (Suc i)) < nat (n - int i)" using step(1) by simp
    have r: "optimize env est it a n t (Suc i) tn2 h2 = (eo, tn', h')"
      using step(5) less.prems(1) by simp
    from less.hyps [OF m r l2]
    have tk: "take (length (study tn2)) (study tn') = study tn2"
      and bp: "best_params tn' = best_params tn2"
      and al: "\<forall>k. length (study tn2) \<le> k \<and> k < length (study tn')
                \<longrightarrow> int k < n \<and> elapsed (take k (study tn')) < t"
      and st: "eo = None \<longrightarrow> n \<le> int (length (study tn')) \<or> t \<le> elapsed (study tn')"
      by simp_all
    have "take i (take (Suc i) (study tn')) = take i (study tn')"
      by (simp add: min.absorb1)
    with tk l2 s2 less.prems(2) have ti: "take i (study tn') = study tn" by simp
    have "\<forall>k. i \<le> k \<and> k < length (study tn')
                \<longrightarrow> int k < n \<and> elapsed (take k (study tn')) < t"
    proof (intro allI impI)
      fix k assume k: "i \<le> k \<and> k < length (study tn')"
      show "int k < n \<and> elapsed (take k (study tn')) < t"
      proof (cases "k = i")
        case True
        with step(1,2) ti show ?thesis by simp
      next
        case False
        with k l2 have "length (study tn2) \<le> k \<and> k < length (study tn')" by simp
        with al show ?thesis by blast
      qed
    qed
    with st ti bp b2 less.prems(2) show ?thesis by simp
  qed
qed

lemma fit_try_study:
  assumes "direction tn \<in> {''minimize'', ''maximize''}" and "best_params tn = None"
    and "fit_try env tn a it flg h = (r, tn', h')"
  shows "(\<forall>k < length (study tn'). int k < n_trials tn
              \<and> elapsed (take k (study tn')) < timeout tn)
         \<and> (best_params tn' \<noteq> None
              \<longrightarrow> n_trials tn \<le> int (length (study tn'))
                  \<or> timeout tn \<le> elapsed (study tn'))"
proof -
  obtain eo tn1 h1 where o: "optimize env (estimated_n_trials tn) it a (n_trials tn) (timeout tn) 0
        (tn\<lparr>study := []\<rparr>) h = (eo, tn1, h1)"
    by (cases "optimize env (estimated_n_trials tn) it a (n_trials tn) (timeout tn) 0
        (tn\<lparr>study := []\<rparr>) h")
  from optimize_trace [OF o] assms(2)
  have b: "best_params tn1 = None"
    and al: "\<forall>k < length (study tn1). int k < n_trials tn
               \<and> elapsed (take k (study tn1)) < timeout tn"
    and st: "eo = None \<longrightarrow> n_trials tn \<le> int (length (study tn1))
               \<or> timeout tn \<le> elapsed (study tn1)"
    by simp_all
  have "tn' = tn1 \<or> (eo = None \<and> (\<exists>bp. tn' = tn1\<lparr>best_params := Some bp\<rparr>))"
    using assms(1,3) o
    by (auto simp: fit_try_def Let_def split: option.splits sum.splits prod.splits if_splits)
  then show ?thesis
  proof
    assume "tn' = tn1"
    with b al show ?thesis by simp
  next
    assume "eo = None \<and> (\<exists>bp. tn' = tn1\<lparr>best_params := Some bp\<rparr>)"
    then obtain bp where e: "eo = None" and t: "tn' = tn1\<lparr>best_params := Some bp\<rparr>" by blast
    from t have "study tn' = study tn1" by simp
    with al st e show ?thesis by simp
  qed
qed

text \<open>
  Claim C6, as the code has it. \<open>fit\<close> calls \<open>study.optimize\<close> with \<open>n_trials=self.n_trials\<close>
  and \<open>timeout=self.timeout\<close>, the timeout being the smaller of the tuner's own and the
  time the algorithm's timer grants (at least 1); \<open>estimated_n_trials\<close> is not among the
  arguments. So in the study a call of \<open>fit\<close> leaves behind, every trial was started with
  fewer than \<open>n_trials\<close> trials run and less than the timeout elapsed; and when \<open>fit\<close> got as
  far as storing the best parameters, the loop had stopped because \<open>n_trials\<close> trials were
  run or the timeout had elapsed. The estimate bounds nothing.
\<close>

theorem fit_stops_on_count_or_timeout:
  assumes "\<not> is_fitted (h ! a)" and "direction tn \<in> {''minimize'', ''maximize''}"
    and "best_params tn = None"
  shows "(\<forall>k < length (study (fst (snd (fit env tn a it h)))).
            int k < n_trials tn
            \<and> elapsed (take k (study (fst (snd (fit env tn a it h)))))
                < min (timeout tn) (max (estimate_tuner_time env (iterator_len env it)) 1))
         \<and> (best_params (fst (snd (fit env tn a it h))) \<noteq> None
              \<longrightarrow> n_trials tn \<le> int (length (study (fst (snd (fit env tn a it h)))))
                  \<or> min (timeout tn) (max (estimate_tuner_time env (iterator_len env it)) 1)
                      \<le> elapsed (study (fst (snd (fit env tn a it h)))))"
proof -
  define tn1 where "tn1 = upd_timeout tn (max (estimate_tuner_time env (iterator_len env it)) 1)"
  define flg where "flg = (fit_on_holdout tn1 \<and> \<not> is_HoldoutIterator env it)"
  define it1 where "it1 = (if flg then convert_to_holdout_iterator env it else it)"
  define h1 where "h1 = h @ [h ! a]"
  have f: "direction tn1 \<in> {''minimize'', ''maximize''}" "best_params tn1 = None"
    "n_trials tn1 = n_trials tn"
    "timeout tn1 = min (timeout tn) (max (estimate_tuner_time env (iterator_len env it)) 1)"
    using assms(2,3) by (simp_all add: tn1_def upd_timeout_def)
  obtain r tn2 h2 where t: "fit_try env tn1 (length h) it1 flg h1 = (r, tn2, h2)"
    by (cases "fit_try env tn1 (length h) it1 flg h1")
  have e: "fst (snd (fit env tn a it h)) = tn2"
    using assms(1) t
    by (cases r) (simp_all add: fit_def Let_def deepcopy_def tn1_def [symmetric]
        flg_def [symmetric] it1_def [symmetric] h1_def [symmetric])
  from fit_try_study [OF f(1,2) t] show ?thesis
    unfolding e f(3,4) .
qed

subsection \<open>Runs of the mocked session\<close>

lemmas run_defs = mock_session_def store0_def new_OptunaTuner_def objective_def
  update_trial_time_def mean_duration_def elapsed_def deepcopy_def Let_def

lemma floor_five_halves: "\<lfloor>5 / 2 :: rat\<rfloor> = 2"
  by (simp add: floor_eq_iff)

lemma floor_three_halves: "\<lfloor>3 / 2 :: rat\<rfloor> = 1"
  by (simp add: floor_eq_iff)

lemma two_trials_run:
  "optimize (mock_session 4 4) 2 True 0 2 10 0
     ((new_OptunaTuner 10 2 ''maximize'' False 42)\<lparr>study := []\<rparr>) store0
   = (None,
      \<lparr>timeout = 10, n_trials = 2, estimated_n_trials = 2,
        direction = ''maximize'', fit_on_holdout = False, random_state = 42,
        study = [\<lparr>trial_params = 0, trial_value = 1, trial_duration = 4\<rparr>,
                 \<lparr>trial_params = 1, trial_value = 2, trial_duration = 4\<rparr>],
        best_params = None\<rparr>,
      [\<lparr>is_fitted = False, params = 99, mean_trial_time = Some 4\<rparr>,
       \<lparr>is_fitted = True, params = 0, mean_trial_time = None\<rparr>,
       \<lparr>is_fitted = True, params = 1, mean_trial_time = Some 4\<rparr>])"
  by (subst optimize.simps, simp add: run_defs floor_five_halves)+

theorem estimate_from_whole_timeout_witness:
  "fst (optimize (mock_session 4 4) 2 True 0 2 10 0
          ((new_OptunaTuner 10 2 ''maximize'' False 42)\<lparr>study := []\<rparr>) store0) = None
   \<and> map trial_duration (study (fst (snd (optimize (mock_session 4 4) 2 True 0 2 10 0
          ((new_OptunaTuner 10 2 ''maximize'' False 42)\<lparr>study := []\<rparr>) store0)))) = [4, 4]
   \<and> estimated_n_trials (fst (snd (optimize (mock_session 4 4) 2 True 0 2 10 0
          ((new_OptunaTuner 10 2 ''maximize'' False 42)\<lparr>study := []\<rparr>) store0)))
       = 2"
  using estimate_from_whole_timeout [OF two_trials_run]
  by (simp add: two_trials_run)

text \<open>
  Claim C1 as stated fails: with a budget of 10 and one trial of duration 4 the callback
  sets the estimate to \<open>floor(10 / 4) = 2\<close>, while the floor of the remaining time over the
  mean duration is \<open>floor(6 / 4) = 1\<close>.
\<close>

theorem estimate_ignores_time_spent:
  "estimated_n_trials (fst (snd (update_trial_time
      ((new_OptunaTuner 10 100 ''maximize'' True 42)
         \<lparr>study := [\<lparr>trial_params = 0 :: nat, trial_value = 1, trial_duration = 4\<rparr>]\<rparr>)
      0 store0))) = 2
   \<and> spec_estimated_affordable_trials 10
        [\<lparr>trial_params = 0 :: nat, trial_value = 1, trial_duration = 4\<rparr>] = 1"
  by (simp add: run_defs spec_estimated_affordable_trials_def spec_remaining_time_def
      floor_five_halves floor_three_halves)

text \<open>
  Claim C6 as stated fails: with a budget of 5, a first trial of duration 2 and later
  trials of duration 1, \<open>fit\<close> runs four trials, although the estimate after the first
  trial is 2.
\<close>

theorem estimate_is_no_stopping_bound:
  "length (study (fst (snd (fit (mock_session 2 1)
      (new_OptunaTuner 5 100 ''maximize'' False 42) 0 True store0)))) = 4"
  apply (simp add: fit_def fit_try_def upd_timeout_def run_defs)
  apply (subst optimize.simps, simp add: run_defs)+
  apply (simp add: study_best_params_def better_def split: prod.splits)
  done

subsection \<open>What \<open>fit\<close> returns\<close>

lemma best_trial_Some:
  assumes "best_trial ''maximize'' (Some b) ts = Some r"
  shows "(r = b \<and> (\<forall>j < length ts. trial_value (ts ! j) \<le> trial_value b))
         \<or> (\<exists>i < length ts. r = ts ! i \<and> trial_value b < trial_value (ts ! i)
               \<and> (\<forall>j < length ts. trial_value (ts ! j) \<le> trial_value (ts ! i))
               \<and> (\<forall>j < i. trial_value (ts ! j) < trial_value (ts ! i)))"
  using assms
proof (induction ts arbitrary: b)
  case Nil
  then show ?case by simp
next
  case (Cons t ts)
  show ?case
  proof (cases "trial_value b < trial_value t")
    case True
    with Cons.prems have "best_trial ''maximize'' (Some t) ts = Some r"
      by (simp add: better_def)
    from Cons.IH [OF this] show ?thesis
    proof
      assume a: "r = t \<and> (\<forall>j < length ts. trial_value (ts ! j) \<le> trial_value t)"
      have "0 < length (t # ts) \<and> r = (t # ts) ! 0 \<and> trial_value b < trial_value ((t # ts) ! 0)
            \<and> (\<forall>j < length (t # ts). trial_value ((t # ts) ! j) \<le> trial_value ((t # ts) ! 0))
            \<and> (\<forall>j < 0. trial_value ((t # ts) ! j) < trial_value ((t # ts) ! 0))"
        using a True by (auto simp: nth_Cons split: nat.splits)
      then show ?thesis by blast
    next
      assume "\<exists>i < length ts. r = ts ! i \<and> trial_value t < trial_value (ts ! i)
               \<and> (\<forall>j < length ts. trial_value (ts ! j) \<le> trial_value (ts ! i))
               \<and> (\<forall>j < i. trial_value (ts ! j) < trial_value (ts ! i))"
      then obtain i where i: "i < length ts" "r = ts ! i" "trial_value t < trial_value (ts ! i)"
        "\<forall>j < length ts. trial_value (ts ! j) \<le> trial_value (ts ! i)"
        "\<forall>j < i. trial_value (ts ! j) < trial_value (ts ! i)"
        by blast
      have "Suc i < length (t # ts) \<and> r = (t # ts) ! Suc i
            \<and> trial_value b < trial_value ((t # ts) ! Suc i)
            \<and> (\<forall>j < length (t # ts). trial_value ((t # ts) ! j) \<le> trial_value ((t # ts) ! Suc i))
            \<and> (\<forall>j < Suc i. trial_value ((t # ts) ! j) < trial_value ((t # ts) ! Suc i))"
        using i True by (auto simp: nth_Cons split: nat.splits)
      then show ?thesis by blast
    qed
  next
    case False
    with Cons.prems have "best_trial ''maximize'' (Some b) ts = Some r"
      by (simp add: better_def)
    from Cons.IH [OF this] show ?thesis
    proof
      assume a: "r = b \<and> (\<forall>j < length ts. trial_value (ts ! j) \<le> trial_value b)"
      then have "r = b \<and> (\<forall>j < length (t # ts). trial_value ((t # ts) ! j) \<le> trial_value b)"
        using False by (auto simp: nth_Cons split: nat.splits)
      then show ?thesis by blast
    next
      assume "\<exists>i < length ts. r = ts ! i \<and> trial_value b < trial_value (ts ! i)
               \<and> (\<forall>j < length ts. trial_value (ts ! j) \<le> trial_value (ts ! i))
               \<and> (\<forall>j < i. trial_value (ts ! j) < trial_value (ts ! i))"
      then obtain i where i: "i < length ts" "r = ts ! i" "trial_value b < trial_value (ts ! i)"
        "\<forall>j < length ts. trial_value (ts ! j) \<le> trial_value (ts ! i)"
        "\<forall>j < i. trial_value (ts ! j) < trial_value (ts ! i)"
        by blast
      have "Suc i < length (t # ts) \<and> r = (t # ts) ! Suc i
            \<and> trial_value b < trial_value ((t # ts) ! Suc i)
            \<and> (\<forall>j < length (t # ts). trial_value ((t # ts) ! j) \<le> trial_value ((t # ts) ! Suc i))
            \<and> (\<forall>j < Suc i. trial_value ((t # ts) ! j) < trial_value ((t # ts) ! Suc i))"
        using i False by (auto simp: nth_Cons split: nat.splits)
      then show ?thesis by blast
    qed
  qed
qed

lemma study_best_params_earliest:
  assumes "study_best_params ''maximize'' trials = Inr bp"
  shows "earliest_best trials (Some bp)"
proof (cases trials)
  case Nil
  with assms show ?thesis by (simp add: study_best_params_def)
next
  case (Cons t ts)
  with assms obtain r where r: "best_trial ''maximize'' (Some t) ts = Some r"
    and bp: "bp = trial_params r"
    by (auto simp: study_best_params_def split: option.splits)
  from best_trial_Some [OF r] show ?thesis
  proof
    assume a: "r = t \<and> (\<forall>j < length ts. trial_value (ts ! j) \<le> trial_value t)"
    have "0 < length trials \<and> Some bp = Some (trial_params (trials ! 0))
          \<and> (\<forall>j < length trials. trial_value (trials ! j) \<le> trial_value (trials ! 0))
          \<and> (\<forall>j < 0. trial_value (trials ! j) < trial_value (trials ! 0))"
      using a bp Cons by (auto simp: nth_Cons split: nat.splits)
    then show ?thesis unfolding earliest_best_def by blast
  next
    assume "\<exists>i < length ts. r = ts ! i \<and> trial_value t < trial_value (ts ! i)
               \<and> (\<forall>j < length ts. trial_value (ts ! j) \<le> trial_value (ts ! i))
               \<and> (\<forall>j < i. trial_value (ts ! j) < trial_value (ts ! i))"
    then obtain i where i: "i < length ts" "r = ts ! i" "trial_value t < trial_value (ts ! i)"
      "\<forall>j < length ts. trial_value (ts ! j) \<le> trial_value (ts ! i)"
      "\<forall>j < i. trial_value (ts ! j) < trial_value (ts ! i)"
      by blast
    have "Suc i < length trials \<and> Some bp = Some (trial_params (trials ! Suc i))
          \<and> (\<forall>j < length trials. trial_value (trials ! j) \<le> trial_value (trials ! Suc i))
          \<and> (\<forall>j < Suc i. trial_value (trials ! j) < trial_value (trials ! Suc i))"
      using i bp Cons by (auto simp: nth_Cons split: nat.splits)
    then show ?thesis unfolding earliest_best_def by blast
  qed
qed

lemma update_trial_time_keeps:
  assumes "update_trial_time tn a h = (eo, tn', h')"
  shows "direction tn' = direction tn \<and> best_params tn' = best_params tn"
  using assms by (auto simp: update_trial_time_def Let_def split: if_splits)

lemma optimize_keeps:
  assumes "optimize env est it a n t i tn h = (eo, tn', h')"
  shows "direction tn' = direction tn"
  using assms
proof (induction "nat (n - int i)" arbitrary: i tn h rule: less_induct)
  case less
  show ?case
  proof (cases rule: optimize_cases [of n i t tn env est it a h])
    case stop
    with less.prems show ?thesis by simp
  next
    case (raise e h1)
    with less.prems show ?thesis by simp
  next
    case (callback_raise prm v h1 e tn2 h2)
    from update_trial_time_keeps [OF callback_raise(4)] callback_raise(5) less.prems
    show ?thesis by simp
  next
    case (step prm v h1 tn2 h2)
    have m: "nat (n - int (Suc i)) < nat (n - int i)" using step(1) by simp
    have r: "optimize env est it a n t (Suc i) tn2 h2 = (eo, tn', h')"
      using step(5) less.prems by simp
    from less.hyps [OF m r] update_trial_time_keeps [OF step(4)] show ?thesis by simp
  qed
qed

lemma best_trial_exists: "best_trial d (Some b) ts \<noteq> None"
proof (induction ts arbitrary: b)
  case Nil
  show ?case by simp
next
  case (Cons t ts)
  show ?case
  proof (cases "better d (trial_value t) (trial_value b)")
    case True
    with Cons [of t] show ?thesis by simp
  next
    case False
    with Cons [of b] show ?thesis by simp
  qed
qed

lemma study_best_params_empty: "study_best_params d [] = Inl ValueError"
  by (simp add: study_best_params_def)

lemma study_best_params_nonempty:
  assumes "trials \<noteq> []"
  shows "\<exists>bp. study_best_params ''maximize'' trials = Inr bp \<and> earliest_best trials (Some bp)"
proof -
  from assms obtain t ts where c: "trials = t # ts" by (cases trials) auto
  from best_trial_exists [of "''maximize''" t ts] obtain r where
    "best_trial ''maximize'' (Some t) ts = Some r" by (cases "best_trial ''maximize'' (Some t) ts") auto
  with c have s: "study_best_params ''maximize'' trials = Inr (trial_params r)"
    by (simp add: study_best_params_def)
  from study_best_params_earliest [OF s] have "earliest_best trials (Some (trial_params r))" .
  with s show ?thesis by (intro exI conjI)
qed

text \<open>
  Claim C7, as the code has it (direction \<open>maximize\<close>, an unfitted algorithm), read off
  the one call of \<open>optimize\<close> that \<open>fit\<close> makes: on the deep copy, stored at
  \<open>length h\<close>, with the timeout \<open>T\<close> capped by the estimate, on the iterator \<open>it1\<close>
  that is converted to a holdout iterator when \<open>flg\<close> holds. If that call raises an
  OptunaError, \<open>fit\<close> returns \<open>(None, None)\<close>; any other exception it raises leaves
  \<open>fit\<close>. If it returns with no completed trial, \<open>study.best_params\<close> raises a
  ValueError, which \<open>fit\<close> does not catch. Otherwise \<open>best_params\<close> becomes the
  parameters of the earliest trial of highest score, the copy is given these parameters
  and fitted again, and \<open>fit\<close> returns \<open>(None, None)\<close> if that last fit raises an
  OptunaError or if the iterator had been converted, and the fitted copy with its
  predictions in every other case.
\<close>

theorem fit_result:
  assumes "\<not> is_fitted (h ! a)" and "direction tn = ''maximize''"
    and "T = min (timeout tn) (max (estimate_tuner_time env (iterator_len env it)) 1)"
    and "flg = (fit_on_holdout tn \<and> \<not> is_HoldoutIterator env it)"
    and "it1 = (if flg then convert_to_holdout_iterator env it else it)"
    and "optimize env (estimated_n_trials tn) it1 (length h) (n_trials tn) T 0
           (tn\<lparr>timeout := T, study := []\<rparr>) (h @ [h ! a]) = (eo, tnO, hO)"
  shows "case eo of
           Some e \<Rightarrow> fst (fit env tn a it h) = (if e = OptunaError then Inr None else Inl e)
         | None \<Rightarrow>
             if study tnO = [] then fst (fit env tn a it h) = Inl ValueError
             else (\<exists>bp. earliest_best (study tnO) (Some bp)
                     \<and> best_params (fst (snd (fit env tn a it h))) = Some bp
                     \<and> (case fit_predict env it1 ((hO ! length h)\<lparr>params := bp\<rparr>) of
                          Inl e \<Rightarrow> fst (fit env tn a it h)
                                     = (if e = OptunaError then Inr None else Inl e)
                        | Inr (algo', preds_ds) \<Rightarrow>
                            fst (fit env tn a it h)
                              = (if flg then Inr None else Inr (Some (length h, preds_ds)))
                            \<and> snd (snd (fit env tn a it h)) ! length h = algo'))"
proof -
  define tn1 where "tn1 = upd_timeout tn (max (estimate_tuner_time env (iterator_len env it)) 1)"
  define h1 where "h1 = h @ [h ! a]"
  have t1: "tn1 = tn\<lparr>timeout := T\<rparr>"
    by (simp add: tn1_def upd_timeout_def assms(3))
  have f1: "(fit_on_holdout tn1 \<and> \<not> is_HoldoutIterator env it) = flg"
    by (simp add: t1 assms(4))
  have d1: "direction tn1 = ''maximize''" "estimated_n_trials tn1 = estimated_n_trials tn"
    "n_trials tn1 = n_trials tn" "timeout tn1 = T"
    using assms(2) by (simp_all add: t1)
  have o: "optimize env (estimated_n_trials tn1) it1 (length h) (n_trials tn1) (timeout tn1) 0
             (tn1\<lparr>study := []\<rparr>) h1 = (eo, tnO, hO)"
    using assms(6) by (simp add: d1 h1_def t1)
  from optimize_keeps [OF o] d1 have dO: "direction tnO = ''maximize''" by simp
  have "length h < length h1" by (simp add: h1_def)
  from optimize_frame [OF order_refl this o] have lO: "length h < length hO"
    by (simp add: h1_def)
  obtain r tn2 h2 where t: "fit_try env tn1 (length h) it1 flg h1 = (r, tn2, h2)"
    by (cases "fit_try env tn1 (length h) it1 flg h1")
  have e: "fit env tn a it h
             = (case r of Inl e \<Rightarrow> if e = OptunaError then (Inr None, tn2, h2) else (Inl e, tn2, h2)
                | Inr x \<Rightarrow> (Inr x, tn2, h2))"
    using assms(1) t
    by (cases r) (simp_all add: fit_def Let_def deepcopy_def tn1_def [symmetric]
        f1 assms(5) [symmetric] h1_def [symmetric])
  show ?thesis
  proof (cases eo)
    case (Some ex)
    with t o d1 have "r = Inl ex" by (simp add: fit_try_def)
    with e have "fst (fit env tn a it h) = (if ex = OptunaError then Inr None else Inl ex)"
      by simp
    with Some show ?thesis by simp
  next
    case None
    show ?thesis
    proof (cases "study tnO = []")
      case True
      with None t o d1 dO have "r = Inl ValueError"
        by (simp add: fit_try_def study_best_params_empty)
      with e have "fst (fit env tn a it h) = Inl ValueError" by simp
      with None True show ?thesis by simp
    next
      case False
      from study_best_params_nonempty [OF False] obtain bp where
        bp: "study_best_params ''maximize'' (study tnO) = Inr bp"
        and eb: "earliest_best (study tnO) (Some bp)" by blast
      define alg where "alg = (hO ! length h)\<lparr>params := bp\<rparr>"
      have nth: "hO[length h := (hO ! length h)\<lparr>params := bp\<rparr>] ! length h = alg"
        using lO by (simp add: alg_def)
      have ft: "fit_try env tn1 (length h) it1 flg h1
                  = (case fit_predict env it1 alg of
                       Inl e \<Rightarrow> (Inl e, tnO\<lparr>best_params := Some bp\<rparr>,
                                  hO[length h := (hO ! length h)\<lparr>params := bp\<rparr>])
                     | Inr (algo', preds_ds) \<Rightarrow>
                         (if flg then Inr None else Inr (Some (length h, preds_ds)),
                          tnO\<lparr>best_params := Some bp\<rparr>,
                          (hO[length h := (hO ! length h)\<lparr>params := bp\<rparr>])
                             [length h := algo']))"
        using None o d1 dO bp nth
        by (simp add: fit_try_def Let_def split: sum.splits prod.splits)
      have main: "case fit_predict env it1 alg of
                    Inl e \<Rightarrow> fst (fit env tn a it h)
                               = (if e = OptunaError then Inr None else Inl e)
                            \<and> best_params (fst (snd (fit env tn a it h))) = Some bp
                  | Inr (algo', preds_ds) \<Rightarrow>
                      fst (fit env tn a it h)
                        = (if flg then Inr None else Inr (Some (length h, preds_ds)))
                      \<and> best_params (fst (snd (fit env tn a it h))) = Some bp
                      \<and> snd (snd (fit env tn a it h)) ! length h = algo'"
      proof (cases "fit_predict env it1 alg")
        case (Inl ex)
        with ft t have "r = Inl ex" "tn2 = tnO\<lparr>best_params := Some bp\<rparr>" by simp_all
        with e Inl show ?thesis by simp
      next
        case (Inr ap)
        obtain algo' preds where ap: "ap = (algo', preds)" by (cases ap)
        from ft t Inr ap
        have r: "r = (if flg then Inr None else Inr (Some (length h, preds)))"
          and t2: "tn2 = tnO\<lparr>best_params := Some bp\<rparr>"
          and h2: "h2 = (hO[length h := (hO ! length h)\<lparr>params := bp\<rparr>])
                          [length h := algo']"
          by simp_all
        from h2 lO have "h2 ! length h = algo'" by simp
        with e r t2 Inr ap show ?thesis by simp
      qed
      have "earliest_best (study tnO) (Some bp)
              \<and> best_params (fst (snd (fit env tn a it h))) = Some bp
              \<and> (case fit_predict env it1 alg of
                    Inl e \<Rightarrow> fst (fit env tn a it h)
                               = (if e = OptunaError then Inr None else Inl e)
                  | Inr (algo', preds_ds) \<Rightarrow>
                      fst (fit env tn a it h)
                        = (if flg then Inr None else Inr (Some (length h, preds_ds)))
                      \<and> snd (snd (fit env tn a it h)) ! length h = algo')"
        using eb main by (simp split: sum.splits prod.splits)
      then have "\<exists>bp. earliest_best (study tnO) (Some bp)
              \<and> best_params (fst (snd (fit env tn a it h))) = Some bp
              \<and> (case fit_predict env it1 ((hO ! length h)\<lparr>params := bp\<rparr>) of
                    Inl e \<Rightarrow> fst (fit env tn a it h)
                               = (if e = OptunaError then Inr None else Inl e)
                  | Inr (algo', preds_ds) \<Rightarrow>
                      fst (fit env tn a it h)
                        = (if flg then Inr None else Inr (Some (length h, preds_ds)))
                      \<and> snd (snd (fit env tn a it h)) ! length h = algo')"
        unfolding alg_def by (rule exI)
      with None False show ?thesis by simp
    qed
  qed
qed

lemma tuned_run:
  "fit (mock_session 2 2) (new_OptunaTuner 5 100 ''maximize'' False 42) 0 True store0
   = (Inr (Some (1, 1)),
      \<lparr>timeout = 5, n_trials = 100, estimated_n_trials = 2,
        direction = ''maximize'', fit_on_holdout = False, random_state = 42,
        study = [\<lparr>trial_params = 0, trial_value = 1, trial_duration = 2\<rparr>,
                 \<lparr>trial_params = 1, trial_value = 2, trial_duration = 2\<rparr>,
                 \<lparr>trial_params = 2, trial_value = 2, trial_duration = 2\<rparr>],
        best_params = Some 1\<rparr>,
      [\<lparr>is_fitted = False, params = 99, mean_trial_time = None\<rparr>,
       \<lparr>is_fitted = True, params = 1, mean_trial_time = Some 2\<rparr>,
       \<lparr>is_fitted = True, params = 0, mean_trial_time = None\<rparr>,
       \<lparr>is_fitted = True, params = 1, mean_trial_time = Some 2\<rparr>,
       \<lparr>is_fitted = True, params = 2, mean_trial_time = Some 2\<rparr>])"
  apply (simp add: fit_def fit_try_def upd_timeout_def run_defs)
  apply (subst optimize.simps, simp add: run_defs floor_five_halves)+
  apply (simp add: study_best_params_def better_def)
  done

lemma holdout_run:
  "fit (mock_session 2 2) (new_OptunaTuner 5 100 ''maximize'' True 42) 0 False store0
   = (Inr None,
      \<lparr>timeout = 5, n_trials = 100, estimated_n_trials = 2,
        direction = ''maximize'', fit_on_holdout = True, random_state = 42,
        study = [\<lparr>trial_params = 0, trial_value = 1, trial_duration = 2\<rparr>,
                 \<lparr>trial_params = 1, trial_value = 2, trial_duration = 2\<rparr>,
                 \<lparr>trial_params = 2, trial_value = 2, trial_duration = 2\<rparr>],
        best_params = Some 1\<rparr>,
      [\<lparr>is_fitted = False, params = 99, mean_trial_time = None\<rparr>,
       \<lparr>is_fitted = True, params = 1, mean_trial_time = Some 2\<rparr>,
       \<lparr>is_fitted = True, params = 0, mean_trial_time = None\<rparr>,
       \<lparr>is_fitted = True, params = 1, mean_trial_time = Some 2\<rparr>,
       \<lparr>is_fitted = True, params = 2, mean_trial_time = Some 2\<rparr>])"
  apply (simp add: fit_def fit_try_def upd_timeout_def run_defs)
  apply (subst optimize.simps, simp add: run_defs floor_five_halves)+
  apply (simp add: study_best_params_def better_def)
  done

theorem fit_stops_on_count_or_timeout_witness:
  "\<not> is_fitted (store0 ! 0)
   \<and> length (study (fst (snd (fit (mock_session 2 2)
        (new_OptunaTuner 5 100 ''maximize'' False 42) 0 True store0)))) = 3
   \<and> (5::rat) \<le> elapsed (study (fst (snd (fit (mock_session 2 2)
        (new_OptunaTuner 5 100 ''maximize'' False 42) 0 True store0))))
   \<and> elapsed (take 2 (study (fst (snd (fit (mock_session 2 2)
        (new_OptunaTuner 5 100 ''maximize'' False 42) 0 True store0))))) < 5"
  using fit_stops_on_count_or_timeout [of store0 0 "new_OptunaTuner 5 100 ''maximize'' False 42"
      "mock_session 2 2" True]
  unfolding tuned_run
  by (simp add: store0_def new_OptunaTuner_def mock_session_def elapsed_def)

lemma inner_run:
  "optimize (mock_session 2 2) 100 True 1 100 5 0
     ((new_OptunaTuner 5 100 ''maximize'' False 42)\<lparr>timeout := 5, study := []\<rparr>)
     (store0 @ [store0 ! 0])
   = (None,
      \<lparr>timeout = 5, n_trials = 100, estimated_n_trials = 2, direction = ''maximize'',
         fit_on_holdout = False, random_state = 42,
         study = [\<lparr>trial_params = 0, trial_value = 1, trial_duration = 2\<rparr>,
                  \<lparr>trial_params = 1, trial_value = 2, trial_duration = 2\<rparr>,
                  \<lparr>trial_params = 2, trial_value = 2, trial_duration = 2\<rparr>],
         best_params = None\<rparr>,
      [\<lparr>is_fitted = False, params = 99, mean_trial_time = None\<rparr>,
       \<lparr>is_fitted = False, params = 99, mean_trial_time = Some 2\<rparr>,
       \<lparr>is_fitted = True, params = 0, mean_trial_time = None\<rparr>,
       \<lparr>is_fitted = True, params = 1, mean_trial_time = Some 2\<rparr>,
       \<lparr>is_fitted = True, params = 2, mean_trial_time = Some 2\<rparr>])"
  apply (simp add: run_defs)
  apply (subst optimize.simps, simp add: run_defs floor_five_halves)+
  done


theorem fit_result_witness:
  "\<not> is_fitted (store0 ! 0)
   \<and> fst (fit (mock_session 2 2) (new_OptunaTuner 5 100 ''maximize'' False 42) 0 True store0)
       = Inr (Some (1, 1))
   \<and> best_params (fst (snd (fit (mock_session 2 2)
        (new_OptunaTuner 5 100 ''maximize'' False 42) 0 True store0))) = Some 1"
proof -
  define F where "F = fit (mock_session 2 2) (new_OptunaTuner 5 100 ''maximize'' False 42)
                        0 True store0"
  define S :: "nat frozen_trial list" where
    "S = [\<lparr>trial_params = 0, trial_value = 1, trial_duration = 2\<rparr>,
          \<lparr>trial_params = 1, trial_value = 2, trial_duration = 2\<rparr>,
          \<lparr>trial_params = 2, trial_value = 2, trial_duration = 2\<rparr>]"
  have u: "\<not> is_fitted (store0 ! 0)" by (simp add: store0_def)
  have d: "direction (new_OptunaTuner 5 100 ''maximize'' False 42) = ''maximize''"
    by (simp add: new_OptunaTuner_def)
  have T: "(5::rat) = min (timeout (new_OptunaTuner 5 100 ''maximize'' False 42))
             (max (estimate_tuner_time (mock_session 2 2) (iterator_len (mock_session 2 2) True)) 1)"
    by (simp add: new_OptunaTuner_def mock_session_def)
  have f: "False = (fit_on_holdout (new_OptunaTuner 5 100 ''maximize'' False 42)
                     \<and> \<not> is_HoldoutIterator (mock_session 2 2) True)"
    by (simp add: new_OptunaTuner_def)
  have i: "True = (if False then convert_to_holdout_iterator (mock_session 2 2) True else True)"
    by simp
  have r: "optimize (mock_session 2 2)
             (estimated_n_trials (new_OptunaTuner 5 100 ''maximize'' False 42)) True
             (length store0) (n_trials (new_OptunaTuner 5 100 ''maximize'' False 42)) 5 0
             ((new_OptunaTuner 5 100 ''maximize'' False 42)\<lparr>timeout := 5, study := []\<rparr>)
             (store0 @ [store0 ! 0])
           = (None,
              \<lparr>timeout = 5, n_trials = 100, estimated_n_trials = 2, direction = ''maximize'',
                 fit_on_holdout = False, random_state = 42, study = S, best_params = None\<rparr>,
              [\<lparr>is_fitted = False, params = 99, mean_trial_time = None\<rparr>,
               \<lparr>is_fitted = False, params = 99, mean_trial_time = Some 2\<rparr>,
               \<lparr>is_fitted = True, params = 0, mean_trial_time = None\<rparr>,
               \<lparr>is_fitted = True, params = 1, mean_trial_time = Some 2\<rparr>,
               \<lparr>is_fitted = True, params = 2, mean_trial_time = Some 2\<rparr>])"
    unfolding S_def
    using inner_run by (simp add: new_OptunaTuner_def store0_def)
  from fit_result [OF u d T f i r]
  obtain bp where eb: "earliest_best S (Some bp)"
    and b: "best_params (fst (snd F)) = Some bp"
    and c: "fst F = Inr (Some (1, bp))"
    unfolding F_def [symmetric]
    by (auto simp add: S_def mock_session_def store0_def)
  have len: "length S = 3" by (simp add: S_def)
  from eb obtain k where k: "k < 3" "bp = trial_params (S ! k)"
    "\<forall>j < 3. trial_value (S ! j) \<le> trial_value (S ! k)"
    "\<forall>j < k. trial_value (S ! j) < trial_value (S ! k)"
    unfolding earliest_best_def len by auto
  from k(1) have "k = 0 \<or> k = 1 \<or> k = 2" by arith
  then have "bp = 1"
  proof (elim disjE)
    assume "k = 0"
    with k(3) have "trial_value (S ! 1) \<le> trial_value (S ! 0)" by simp
    then show ?thesis by (simp add: S_def)
  next
    assume "k = 1"
    with k(2) show ?thesis by (simp add: S_def)
  next
    assume "k = 2"
    with k(4) have "trial_value (S ! 1) < trial_value (S ! 2)" by simp
    then show ?thesis by (simp add: S_def)
  qed
  with u b c show ?thesis unfolding F_def by simp
qed

text \<open>
  Claim C7 as stated fails: with \<open>fit_on_holdout\<close> set and an iterator that is not a
  holdout iterator, \<open>fit\<close> returns \<open>(None, None)\<close> after three completed trials, in a
  session in which nothing raises.
\<close>

theorem holdout_returns_none_after_trials:
  "fst (fit (mock_session 2 2) (new_OptunaTuner 5 100 ''maximize'' True 42) 0 False store0)
     = Inr None
   \<and> length (study (fst (snd (fit (mock_session 2 2)
        (new_OptunaTuner 5 100 ''maximize'' True 42) 0 False store0)))) = 3
   \<and> \<not> raises_OptunaError (mock_session 2 2) True"
  unfolding holdout_run
  by (simp add: raises_OptunaError_def mock_session_def)

end
